theory Spec2Isabelle
  imports Main
begin

section \<open>Orca: scan results and the resolution predicate\<close>

text \<open>
  The handlers of \<^verbatim>\<open>pkg/handlers\<close> and the remediator of \<^verbatim>\<open>pkg/remediator\<close> are
  embedded as HOL functions. A Go error value is a value of type \<open>error\<close>; pointer
  fields of the hosting platform's payloads that the handlers dereference are modelled
  as present.
\<close>

datatype error = Error string

text \<open>
  Modelled from the spec: the declarations of the scanning package
  (\<^verbatim>\<open>CommitScanResult\<close>, \<^verbatim>\<open>Match\<close>, \<^verbatim>\<open>FileMatch\<close>, \<^verbatim>\<open>ContentMatch\<close>, \<^verbatim>\<open>LineMatch\<close>) are
  not among the sources; the records below carry the fields the handlers and the
  remediator read, as the data model of the specification lists them.
\<close>

record Match =
  Resolved :: bool

record LineMatch =
  LineNumber :: int

record FileMatch =
  FileMatch_Path :: string
  FileMatch_URL :: string

record ContentMatch =
  ContentMatch_Path :: string
  ContentMatch_URL :: string
  LineMatches :: "LineMatch list"

record CommitScanResult =
  Commit :: string
  FileMatches :: "FileMatch list"
  ContentMatches :: "ContentMatch list"
  Matches :: "Match list"

subsection \<open>AllMatchesAreResolved\<close>

text \<open>
  The inner loop of \<^verbatim>\<open>AllMatchesAreResolved\<close> over \<^verbatim>\<open>result.Matches\<close>: \<open>True\<close> when the
  loop reaches \<^verbatim>\<open>return false\<close>, \<open>False\<close> when it runs to its end.
\<close>

fun returnsFalseIn :: "Match list \<Rightarrow> bool" where
  "returnsFalseIn [] = False"
| "returnsFalseIn (match # matches) =
     (if \<not> Resolved match then True else returnsFalseIn matches)"

fun AllMatchesAreResolved :: "CommitScanResult list \<Rightarrow> bool" where
  "AllMatchesAreResolved [] = True"
| "AllMatchesAreResolved (result # scanResults) =
     (if returnsFalseIn (Matches result) then False
      else AllMatchesAreResolved scanResults)"

section \<open>The hosting platform as a collaborator\<close>

text \<open>
  Payloads and request options, with the fields the handlers read or set.
\<close>

record Repository =
  Owner_Login :: string
  Repo_Name :: string

record PullRequest =
  Number :: int

record CheckSuite =
  CheckSuite_ID :: int
  HeadSHA :: string
  PullRequests :: "PullRequest list"

record CheckSuiteEvent =
  Repo :: Repository
  CheckSuite :: CheckSuite

record PushEvent =
  Push_Repo :: Repository
  Pusher_Name :: string
  Ref :: string

record CommitFile =
  File_Status :: string
  Filename :: string

record RepositoryCommit =
  SHA :: string
  Files :: "CommitFile list"

record CheckRun =
  ID :: int
  HTMLURL :: string
  CheckSuite_Repository :: Repository

type_synonym checkRunStatus = string
type_synonym checkRunConclusion = string

definition checkRunStatusInProgress :: checkRunStatus where
  "checkRunStatusInProgress = ''in_progress''"

definition checkRunStatusCompleted :: checkRunStatus where
  "checkRunStatusCompleted = ''completed''"

definition checkRunConclusionSuccess :: checkRunConclusion where
  "checkRunConclusionSuccess = ''success''"

definition checkRunConclusionSkipped :: checkRunConclusion where
  "checkRunConclusionSkipped = ''skipped''"

definition checkRunConclusionFailure :: checkRunConclusion where
  "checkRunConclusionFailure = ''failure''"

text \<open>
  The summary of a check-run update. The failure summaries of \<^verbatim>\<open>HandleCheckSuite\<close> are
  formatted with \<^verbatim>\<open>%d\<close> from the pointer \<^verbatim>\<open>pullRequest.Number\<close>, so their text is not a
  function of the payload; each summary is kept as the format string it comes from
  together with its arguments. \<open>SummaryText\<close> carries a title built by
  \<^verbatim>\<open>BuildMessage\<close>.
\<close>

datatype summary =
    FailedToGetCommits int
  | FailedToGetCommit string int
  | FailedToScanCommits int
  | FailedToReply
  | NoIssuesDetected
  | NoPullRequestsFound
  | SummaryText string

record CreateCheckRunOptions =
  Create_Name :: string
  Create_HeadSHA :: string
  Create_Status :: string

record CheckRunOutput =
  Title :: string
  Summary :: summary
  Text :: "string option"

record UpdateCheckRunOptions =
  Status :: string
  Conclusion :: string
  Output :: CheckRunOutput

record PullRequestListOptions =
  State :: string
  Head :: string

record IssueComment =
  Body :: string

record IssueRequest =
  Issue_Title :: string
  Issue_Body :: string
  Assignee :: string

text \<open>
  Modelled from the spec: the declarations of the caching package are not among the
  sources. \<open>FileState\<close> is the tag of a file query (Added, Modified, Removed);
  \<open>GitHubFileQuery\<close> has the fields \<^verbatim>\<open>HandleCheckSuite\<close> sets.
\<close>

datatype FileState = FileAdded | FileModified | FileRemoved

record GitHubFileQuery =
  RepoOwner :: string
  RepoName :: string
  CommitSHA :: string
  FileName :: string
  Query_Status :: FileState

datatype logLevel = LevelDebug | LevelInfo | LevelError

text \<open>
  Everything a handler does to the outside is an event: a log line (the format string
  of the source) or a call to a collaborator, recorded with its arguments and with the
  answer the handler received. A Go call returning \<^verbatim>\<open>(value, error)\<close> whose value the
  handler reads only when the error is nil answers with a sum (\<open>Inl\<close> the error); the
  two calls whose value and error are read independently answer with a pair.
\<close>

datatype event =
    Log logLevel string
  | CreateCheckRunCall string string CreateCheckRunOptions "error + CheckRun"
  | ListCommitsCall string string int "error + RepositoryCommit list"
  | GetCommitCall string string string "error + RepositoryCommit"
  | CheckFileContentFromQueriesCall "GitHubFileQuery list"
      "CommitScanResult list \<times> error option"
  | CreateCommentCall string string int IssueComment "error option"
  | UpdateCheckRunCall string string int UpdateCheckRunOptions "error option"
  | ListPullRequestsCall string string PullRequestListOptions
      "PullRequest list \<times> error option"
  | CheckPushCall PushEvent "CommitScanResult list \<times> error option"
  | HandleMatchesFromPushCall PushEvent "CommitScanResult list" "error option"
  | CreateIssueCall string string IssueRequest "error option"

text \<open>
  The collaborators answer as functions of the request and of the history: the events
  of the handler's run so far. A handler is deterministic, so the history determines
  everything it has told the platform; answers that vary between two identical
  requests of one run are covered.
\<close>

record GitHubClient =
  Checks_CreateCheckRun ::
    "event list \<Rightarrow> string \<Rightarrow> string \<Rightarrow> CreateCheckRunOptions \<Rightarrow> error + CheckRun"
  Checks_UpdateCheckRun ::
    "event list \<Rightarrow> string \<Rightarrow> string \<Rightarrow> int \<Rightarrow> UpdateCheckRunOptions \<Rightarrow> error option"
  PullRequests_List ::
    "event list \<Rightarrow> string \<Rightarrow> string \<Rightarrow> PullRequestListOptions
       \<Rightarrow> PullRequest list \<times> error option"
  PullRequests_ListCommits ::
    "event list \<Rightarrow> string \<Rightarrow> string \<Rightarrow> int \<Rightarrow> error + RepositoryCommit list"
  Repositories_GetCommit ::
    "event list \<Rightarrow> string \<Rightarrow> string \<Rightarrow> string \<Rightarrow> error + RepositoryCommit"
  Issues_CreateComment ::
    "event list \<Rightarrow> string \<Rightarrow> string \<Rightarrow> int \<Rightarrow> IssueComment \<Rightarrow> error option"
  Issues_Create ::
    "event list \<Rightarrow> string \<Rightarrow> string \<Rightarrow> IssueRequest \<Rightarrow> error option"

record Scanner =
  CheckPush :: "event list \<Rightarrow> PushEvent \<Rightarrow> CommitScanResult list \<times> error option"
  CheckFileContentFromQueries ::
    "event list \<Rightarrow> GitHubFileQuery list \<Rightarrow> CommitScanResult list \<times> error option"

record PayloadHandler =
  InstallationId :: int
  AppId :: int
  GitHubClient :: GitHubClient
  Scanner :: Scanner

text \<open>
  What the handlers use of this package and is not among the sources, taken as
  parameters: \<^verbatim>\<open>BuildMessage\<close> (title and text of a report), the match handler's
  \<^verbatim>\<open>HandleMatchesFromPush\<close>, and the zero value of \<^verbatim>\<open>caching.FileState\<close>, which the
  \<^verbatim>\<open>switch\<close> over a file's status leaves in place for a status other than added,
  modified and removed.
\<close>

record package =
  BuildMessage :: "CommitScanResult list \<Rightarrow> string \<times> string"
  HandleMatchesFromPush ::
    "event list \<Rightarrow> PushEvent \<Rightarrow> CommitScanResult list \<Rightarrow> error option"
  FileState_zero :: FileState

abbreviation nl :: char where
  "nl \<equiv> CHR 0x0A"

section \<open>The check-run handler\<close>

text \<open>
  Each function below returns the events it performs, in order; its last argument \<open>h\<close>
  is the history before its first event.
\<close>

definition updateCheckRun ::
  "PayloadHandler \<Rightarrow> CheckRun \<Rightarrow> checkRunStatus \<Rightarrow> checkRunConclusion \<Rightarrow> summary
     \<Rightarrow> string option \<Rightarrow> event list \<Rightarrow> event list" where
  "updateCheckRun handler checkRun status conclusion summary text h =
     (let statusString = status;
          conclusionString = conclusion;
          outputTitle = ''Orca Checks'';
          owner = Owner_Login (CheckSuite_Repository checkRun);
          name = Repo_Name (CheckSuite_Repository checkRun);
          opts = \<lparr>Status = statusString, Conclusion = conclusionString,
                  Output = \<lparr>Title = outputTitle, Summary = summary, Text = text\<rparr>\<rparr>;
          err = Checks_UpdateCheckRun (GitHubClient handler) h owner name (ID checkRun) opts
      in UpdateCheckRunCall owner name (ID checkRun) opts err #
         (case err of
            Some e \<Rightarrow> [Log LevelError ''Failed to update check run %d: %v'']
          | None \<Rightarrow> []))"

definition handleFailure ::
  "PayloadHandler \<Rightarrow> CheckRun \<Rightarrow> summary \<Rightarrow> error \<Rightarrow> event list \<Rightarrow> event list" where
  "handleFailure handler checkRun summary err h =
     updateCheckRun handler checkRun checkRunStatusCompleted checkRunConclusionFailure
       summary None h
     @ [Log LevelError ''Check run %d failed: %v'']"

definition completeCheckRun ::
  "PayloadHandler \<Rightarrow> CheckRun \<Rightarrow> checkRunConclusion \<Rightarrow> summary \<Rightarrow> string option
     \<Rightarrow> event list \<Rightarrow> event list" where
  "completeCheckRun handler checkRun conclusion summary text h =
     updateCheckRun handler checkRun checkRunStatusCompleted conclusion summary text h
     @ [Log LevelDebug
          (''Check run %d completed with conclusion '' @ [CHR 0x22] @ ''%s'' @ [CHR 0x22])]"

text \<open>The \<^verbatim>\<open>switch\<close> over \<^verbatim>\<open>*file.Status\<close>: no case matches, the zero value stays.\<close>

definition fileStatusOf :: "package \<Rightarrow> string \<Rightarrow> FileState" where
  "fileStatusOf pkg status =
     (if status = ''added'' then FileAdded
      else if status = ''modified'' then FileModified
      else if status = ''removed'' then FileRemoved
      else FileState_zero pkg)"

text \<open>The loop over \<^verbatim>\<open>commitWithFiles.Files\<close>, appending one query per file.\<close>

fun forFiles ::
  "package \<Rightarrow> CheckSuiteEvent \<Rightarrow> string \<Rightarrow> CommitFile list \<Rightarrow> GitHubFileQuery list
     \<Rightarrow> GitHubFileQuery list" where
  "forFiles pkg checkSuitePayload commitSha [] fileQueries = fileQueries"
| "forFiles pkg checkSuitePayload commitSha (file # files) fileQueries =
     forFiles pkg checkSuitePayload commitSha files
       (fileQueries @
        [\<lparr>RepoOwner = Owner_Login (Repo checkSuitePayload),
          RepoName = Repo_Name (Repo checkSuitePayload),
          CommitSHA = commitSha,
          FileName = Filename file,
          Query_Status = fileStatusOf pkg (File_Status file)\<rparr>])"

text \<open>
  The loop over the commits of one pull request. \<open>None\<close>: a \<^verbatim>\<open>GetCommit\<close> failed, the
  handler has called \<^verbatim>\<open>handleFailure\<close> and returned. \<open>Some\<close>: the file queries gathered.
\<close>

fun forCommits ::
  "package \<Rightarrow> PayloadHandler \<Rightarrow> CheckSuiteEvent \<Rightarrow> CheckRun \<Rightarrow> PullRequest
     \<Rightarrow> RepositoryCommit list \<Rightarrow> GitHubFileQuery list \<Rightarrow> event list
     \<Rightarrow> GitHubFileQuery list option \<times> event list" where
  "forCommits pkg handler checkSuitePayload checkRun pullRequest [] fileQueries h =
     (Some fileQueries, [])"
| "forCommits pkg handler checkSuitePayload checkRun pullRequest (commit # commits)
     fileQueries h =
     (let commitSha = SHA commit;
          owner = Owner_Login (Repo checkSuitePayload);
          name = Repo_Name (Repo checkSuitePayload);
          r = Repositories_GetCommit (GitHubClient handler) h owner name commitSha;
          call = GetCommitCall owner name commitSha r
      in case r of
           Inl err \<Rightarrow>
             (None,
              call # handleFailure handler checkRun
                       (FailedToGetCommit commitSha (Number pullRequest)) err (h @ [call]))
         | Inr commitWithFiles \<Rightarrow>
             (case forCommits pkg handler checkSuitePayload checkRun pullRequest commits
                     (forFiles pkg checkSuitePayload commitSha (Files commitWithFiles)
                        fileQueries)
                     (h @ [call]) of
                (res, evs) \<Rightarrow> (res, call # evs)))"

text \<open>
  What the handler does with a non-empty list of scan results: lines 348 to 384, every
  path of which returns from the handler.
\<close>

definition reminderBody :: "CheckRun \<Rightarrow> string" where
  "reminderBody checkRun =
     ''## :warning: Heads up!'' @ [nl]
     @ ''It looks like there is _potentially_ sensitive information in the commit history, but it appears to have since been removed.'' @ [nl]
     @ ''See the [Orca check results]('' @ HTMLURL checkRun @ '') for more information.'' @ [nl]
     @ ''If any sensitive information is in the history, please make sure it is addressed appropriately.''"

definition actOnResults ::
  "package \<Rightarrow> PayloadHandler \<Rightarrow> CheckSuiteEvent \<Rightarrow> CheckRun \<Rightarrow> PullRequest
     \<Rightarrow> CommitScanResult list \<Rightarrow> event list \<Rightarrow> event list" where
  "actOnResults pkg handler checkSuitePayload checkRun pullRequest commitScanResults h =
     (let owner = Owner_Login (Repo checkSuitePayload);
          name = Repo_Name (Repo checkSuitePayload);
          title = fst (BuildMessage pkg commitScanResults);
          text = snd (BuildMessage pkg commitScanResults)
      in if AllMatchesAreResolved commitScanResults then
           (let l = Log LevelInfo
                      ''Matches found but resolved in pull request #%d, passing check with reminder'';
                body = reminderBody checkRun;
                err = Issues_CreateComment (GitHubClient handler) (h @ [l]) owner name
                        (Number pullRequest) \<lparr>Body = body\<rparr>;
                call = CreateCommentCall owner name (Number pullRequest) \<lparr>Body = body\<rparr> err
            in case err of
                 Some e \<Rightarrow>
                   [l, call] @ handleFailure handler checkRun FailedToReply e (h @ [l, call])
               | None \<Rightarrow>
                   [l, call] @ completeCheckRun handler checkRun checkRunConclusionSuccess
                                 (SummaryText title) (Some text) (h @ [l, call]))
         else
           (let l = Log LevelDebug ''Potentially sensitive information detected, failing check''
            in l # completeCheckRun handler checkRun checkRunConclusionFailure
                     (SummaryText title) (Some text) (h @ [l])))"

text \<open>
  One round of the loop over the pull requests of the suite (lines 280 to 387). The
  flag is \<open>True\<close> when the round falls through to the next pull request and \<open>False\<close>
  when the handler has returned.
\<close>

definition scanPullRequest ::
  "package \<Rightarrow> PayloadHandler \<Rightarrow> CheckSuiteEvent \<Rightarrow> CheckRun \<Rightarrow> PullRequest
     \<Rightarrow> event list \<Rightarrow> bool \<times> event list" where
  "scanPullRequest pkg handler checkSuitePayload checkRun pullRequest h =
     (let owner = Owner_Login (Repo checkSuitePayload);
          name = Repo_Name (Repo checkSuitePayload);
          r = PullRequests_ListCommits (GitHubClient handler) h owner name
                (Number pullRequest);
          listing = ListCommitsCall owner name (Number pullRequest) r
      in case r of
           Inl err \<Rightarrow>
             (False,
              listing # handleFailure handler checkRun
                          (FailedToGetCommits (Number pullRequest)) err (h @ [listing]))
         | Inr commits \<Rightarrow>
             (case forCommits pkg handler checkSuitePayload checkRun pullRequest commits []
                     (h @ [listing]) of
                (None, gets) \<Rightarrow> (False, listing # gets)
              | (Some fileQueries, gets) \<Rightarrow>
                  (let s = CheckFileContentFromQueries (Scanner handler)
                             (h @ listing # gets) fileQueries;
                       commitScanResults = fst s;
                       scan = CheckFileContentFromQueriesCall fileQueries s;
                       h' = h @ listing # gets @ [scan]
                   in case snd s of
                        Some err \<Rightarrow>
                          (False,
                           listing # gets @ scan #
                             handleFailure handler checkRun
                               (FailedToScanCommits (Number pullRequest)) err h')
                      | None \<Rightarrow>
                          if 0 < length commitScanResults then
                            (False,
                             listing # gets @ scan #
                               actOnResults pkg handler checkSuitePayload checkRun
                                 pullRequest commitScanResults h')
                          else
                            (True,
                             listing # gets @
                               [scan, Log LevelDebug ''No matches to address'']))))"

text \<open>
  The loop over the pull requests, in the order of the payload. The flag is \<open>True\<close>
  when the loop ran to its end and \<open>False\<close> when the handler returned from inside it.
\<close>

fun forPullRequests ::
  "package \<Rightarrow> PayloadHandler \<Rightarrow> CheckSuiteEvent \<Rightarrow> CheckRun \<Rightarrow> PullRequest list
     \<Rightarrow> event list \<Rightarrow> bool \<times> event list" where
  "forPullRequests pkg handler checkSuitePayload checkRun [] h = (True, [])"
| "forPullRequests pkg handler checkSuitePayload checkRun (pullRequest # pullRequests) h =
     (case scanPullRequest pkg handler checkSuitePayload checkRun pullRequest h of
        (False, evs) \<Rightarrow> (False, evs)
      | (True, evs) \<Rightarrow>
          (case forPullRequests pkg handler checkSuitePayload checkRun pullRequests
                  (h @ evs) of
             (finished, evs') \<Rightarrow> (finished, evs @ evs')))"

definition HandleCheckSuite ::
  "package \<Rightarrow> PayloadHandler \<Rightarrow> CheckSuiteEvent \<Rightarrow> event list" where
  "HandleCheckSuite pkg handler checkSuitePayload =
     (let owner = Owner_Login (Repo checkSuitePayload);
          name = Repo_Name (Repo checkSuitePayload);
          h0 = [Log LevelInfo ''Handling check suite event from %s/%s (%d)'',
                Log LevelDebug ''Creating new check run''];
          inProgressString = checkRunStatusInProgress;
          opts = \<lparr>Create_Name = ''Orca Checks'',
                  Create_HeadSHA = HeadSHA (CheckSuite checkSuitePayload),
                  Create_Status = inProgressString\<rparr>;
          r = Checks_CreateCheckRun (GitHubClient handler) h0 owner name opts;
          h1 = h0 @ [CreateCheckRunCall owner name opts r]
      in case r of
           Inl err \<Rightarrow> h1
         | Inr created \<Rightarrow>
             (let h2 = h1 @ [Log LevelDebug ''Check run %d created''];
                  checkRun = created\<lparr>CheckSuite_Repository := Repo checkSuitePayload\<rparr>
              in if 0 < length (PullRequests (CheckSuite checkSuitePayload)) then
                   (case forPullRequests pkg handler checkSuitePayload checkRun
                           (PullRequests (CheckSuite checkSuitePayload)) h2 of
                      (False, evs) \<Rightarrow> h2 @ evs
                    | (True, evs) \<Rightarrow>
                        h2 @ evs @
                        completeCheckRun handler checkRun checkRunConclusionSuccess
                          NoIssuesDetected None (h2 @ evs))
                 else
                   h2 @
                   completeCheckRun handler checkRun checkRunConclusionSkipped
                     NoPullRequestsFound None h2
                   @ [Log LevelInfo ''No pull request exists, skipping'']))"

section \<open>The push handler\<close>

text \<open>
  \<^verbatim>\<open>HandlePush\<close>. The error of \<^verbatim>\<open>PullRequests.List\<close> is assigned and never read: the
  handler looks at the length of the list it got. The three copies of the function
  among the sources differ in their log lines and in what follows an error of the
  scan or of the match handler; the copy beside \<^verbatim>\<open>HandleCheckSuite\<close> is the one embedded,
  where \<^verbatim>\<open>log.Fatal().Err(err)\<close> builds a log event that is never sent, and the handler
  returns.
\<close>

definition HandlePush :: "package \<Rightarrow> PayloadHandler \<Rightarrow> PushEvent \<Rightarrow> event list" where
  "HandlePush pkg handler pushPayload =
     (let owner = Owner_Login (Push_Repo pushPayload);
          name = Repo_Name (Push_Repo pushPayload);
          h0 = [Log LevelInfo ''Handling push...''];
          opts = \<lparr>State = ''open'',
                  Head = Pusher_Name pushPayload @ '':'' @ Ref pushPayload\<rparr>;
          r = PullRequests_List (GitHubClient handler) h0 owner name opts;
          pullRequests = fst r;
          h1 = h0 @ [ListPullRequestsCall owner name opts r]
      in if 0 < length pullRequests then
           h1 @ [Log LevelInfo
                   (''Pull Request already exists for %s, skipping check on push.'' @ [nl])]
         else
           (let s = CheckPush (Scanner handler) h1 pushPayload;
                commitScanResults = fst s;
                h2 = h1 @ [CheckPushCall pushPayload s]
            in case snd s of
                 Some err \<Rightarrow> h2
               | None \<Rightarrow>
                   if 0 < length commitScanResults then
                     (let h3 = h2 @ [Log LevelInfo
                            ''Potentially sensitive information detected. Rectifying...''];
                          m = HandleMatchesFromPush pkg h3 pushPayload commitScanResults;
                          h4 = h3 @ [HandleMatchesFromPushCall pushPayload commitScanResults m]
                      in case m of
                           Some err \<Rightarrow> h4
                         | None \<Rightarrow> h4 @ [Log LevelInfo ''Push has been addressed''])
                   else h2 @ [Log LevelInfo ''No matches to address'']))"

section \<open>The remediator\<close>

text \<open>\<^verbatim>\<open>%d\<close> of a Go integer: its decimal digits, after a minus sign when negative.\<close>

definition digit :: "nat \<Rightarrow> char" where
  "digit n = char_of (48 + n)"

fun decimal :: "nat \<Rightarrow> string" where
  "decimal n = (if n < 10 then [digit n] else decimal (n div 10) @ [digit (n mod 10)])"

declare decimal.simps [simp del]

definition fmt_d :: "int \<Rightarrow> string" where
  "fmt_d i = (if i < 0 then CHR ''-'' # decimal (nat (- i)) else decimal (nat i))"

text \<open>Reading a decimal numeral back, to say what number a title shows.\<close>

definition digitValue :: "char \<Rightarrow> nat" where
  "digitValue c = of_char c - 48"

definition decimalValue :: "string \<Rightarrow> nat" where
  "decimalValue s = foldl (\<lambda>v c. 10 * v + digitValue c) 0 s"

record PushPayload =
  Payload_Repository :: Repository
  Payload_Pusher_Name :: string

record HandlerContext =
  GitHubAPIClient :: GitHubClient

text \<open>The loops of \<^verbatim>\<open>RemediateFromPush\<close> that build the body, innermost first.\<close>

fun forDangerousFiles :: "FileMatch list \<Rightarrow> string \<Rightarrow> string" where
  "forDangerousFiles [] body = body"
| "forDangerousFiles (dangerousFile # fileMatches) body =
     forDangerousFiles fileMatches
       (body @ ''- ['' @ FileMatch_Path dangerousFile @ '']('' @ FileMatch_URL dangerousFile
          @ '')'' @ [nl])"

fun forLineMatches :: "ContentMatch \<Rightarrow> LineMatch list \<Rightarrow> string \<Rightarrow> string" where
  "forLineMatches contentMatch [] body = body"
| "forLineMatches contentMatch (lineMatch # lineMatches) body =
     forLineMatches contentMatch lineMatches
       (body @ ContentMatch_URL contentMatch @ ''#L'' @ fmt_d (LineNumber lineMatch) @ [nl])"

fun forContentMatches :: "ContentMatch list \<Rightarrow> string \<Rightarrow> string" where
  "forContentMatches [] body = body"
| "forContentMatches (contentMatch # contentMatches) body =
     forContentMatches contentMatches
       (forLineMatches contentMatch (LineMatches contentMatch)
          (body @ ''### '' @ ContentMatch_Path contentMatch @ [nl]))"

fun forResults :: "CommitScanResult list \<Rightarrow> string \<Rightarrow> string" where
  "forResults [] body = body"
| "forResults (result # results) body =
     (let body1 = body @ ''Introduced in '' @ Commit result @ '':'' @ [nl];
          body2 = (if 0 < length (FileMatches result) then
                     forDangerousFiles (FileMatches result)
                       (body1 @ ''Potentially sensitive files:'' @ [nl]) @ [nl, nl]
                   else body1);
          body3 = (if 0 < length (ContentMatches result) then
                     forContentMatches (ContentMatches result)
                       (body2 @ ''Files containing potentially sensitive data:'' @ [nl])
                   else body2)
      in forResults results body3)"

text \<open>
  \<^verbatim>\<open>RemediateFromPush\<close> returns the error of \<^verbatim>\<open>Issues.Create\<close>, or nil; \<open>h\<close> is the history
  of the caller.
\<close>

definition RemediateFromPush ::
  "PushPayload \<Rightarrow> CommitScanResult list \<Rightarrow> HandlerContext \<Rightarrow> event list
     \<Rightarrow> error option \<times> event list" where
  "RemediateFromPush pushPayload results handlerContext h =
     (let title = (if 1 < length results then
                     ''Potentially sensitive data found in '' @ fmt_d (int (length results))
                       @ '' commits''
                   else ''Potentially sensitive data found in a commit'');
          body = forResults results
                   (''Potentially sensitive data has recently been pushed to this repository.''
                      @ [nl, nl]);
          owner = Owner_Login (Payload_Repository pushPayload);
          name = Repo_Name (Payload_Repository pushPayload);
          req = \<lparr>Issue_Title = title, Issue_Body = body,
                 Assignee = Payload_Pusher_Name pushPayload\<rparr>;
          err = Issues_Create (GitHubAPIClient handlerContext) h owner name req
      in (err, [CreateIssueCall owner name req err]))"

text \<open>The issue requests of a run, in order.\<close>

fun issues :: "event list \<Rightarrow> IssueRequest list" where
  "issues [] = []"
| "issues (CreateIssueCall owner name req r # tr) = req # issues tr"
| "issues (e # tr) = issues tr"

section \<open>Reading a run\<close>

text \<open>
  The claims speak of what a run did: which calls it made, in which order, with which
  answers. The functions below read that off the events of a run.
\<close>

fun isLog :: "event \<Rightarrow> bool" where
  "isLog (Log l m) = True"
| "isLog e = False"

definition apiCalls :: "event list \<Rightarrow> event list" where
  "apiCalls tr = filter (\<lambda>e. \<not> isLog e) tr"

text \<open>The options of the \<^verbatim>\<open>UpdateCheckRun\<close> calls of a run, in order.\<close>

fun updates :: "event list \<Rightarrow> UpdateCheckRunOptions list" where
  "updates [] = []"
| "updates (UpdateCheckRunCall owner name i opts r # tr) = opts # updates tr"
| "updates (e # tr) = updates tr"

text \<open>Status and conclusion written by each \<^verbatim>\<open>UpdateCheckRun\<close> call of a run.\<close>

definition verdicts :: "event list \<Rightarrow> (string \<times> string) list" where
  "verdicts tr = map (\<lambda>opts. (Status opts, Conclusion opts)) (updates tr)"

text \<open>The pull-request numbers whose commits a run listed, in order.\<close>

fun listed :: "event list \<Rightarrow> int list" where
  "listed [] = []"
| "listed (ListCommitsCall owner name k r # tr) = k # listed tr"
| "listed (e # tr) = listed tr"

text \<open>The answers of the scans of a run, in order.\<close>

fun scans :: "event list \<Rightarrow> (CommitScanResult list \<times> error option) list" where
  "scans [] = []"
| "scans (CheckFileContentFromQueriesCall q s # tr) = s # scans tr"
| "scans (e # tr) = scans tr"

text \<open>
  The calls that gather commits, files and scan results, and the ones among them that
  failed.
\<close>

fun isFetch :: "event \<Rightarrow> bool" where
  "isFetch (ListCommitsCall owner name k r) = True"
| "isFetch (GetCommitCall owner name sha r) = True"
| "isFetch (CheckFileContentFromQueriesCall q s) = True"
| "isFetch e = False"

fun fetchFailed :: "event \<Rightarrow> bool" where
  "fetchFailed (ListCommitsCall owner name k (Inl err)) = True"
| "fetchFailed (GetCommitCall owner name sha (Inl err)) = True"
| "fetchFailed (CheckFileContentFromQueriesCall q (rs, Some err)) = True"
| "fetchFailed e = False"

text \<open>A scan that succeeded with a non-empty list of results.\<close>

fun foundMatches :: "event \<Rightarrow> bool" where
  "foundMatches (CheckFileContentFromQueriesCall q (rs, None)) = (0 < length rs)"
| "foundMatches e = False"

text \<open>
  The events of a round that falls through: successful listings and commit fetches, a
  scan without results, log lines.
\<close>

fun clean :: "event \<Rightarrow> bool" where
  "clean (Log l m) = True"
| "clean (ListCommitsCall owner name k (Inr commits)) = True"
| "clean (GetCommitCall owner name sha (Inr commit)) = True"
| "clean (CheckFileContentFromQueriesCall q (rs, None)) = (rs = [])"
| "clean e = False"

text \<open>A commit fetched with its files.\<close>

fun fetchedCommit :: "event \<Rightarrow> bool" where
  "fetchedCommit (GetCommitCall owner name sha (Inr commit)) = True"
| "fetchedCommit e = False"

text \<open>
  The summaries that \<^verbatim>\<open>handleFailure\<close> is called with after a failed fetch, and the
  events that close a run: log lines, the reminder comment, the check-run update.
\<close>

fun fetchFailureSummary :: "summary \<Rightarrow> bool" where
  "fetchFailureSummary (FailedToGetCommits k) = True"
| "fetchFailureSummary (FailedToGetCommit sha k) = True"
| "fetchFailureSummary (FailedToScanCommits k) = True"
| "fetchFailureSummary s = False"

fun isClosing :: "event \<Rightarrow> bool" where
  "isClosing (Log l m) = True"
| "isClosing (CreateCommentCall owner name k c r) = True"
| "isClosing (UpdateCheckRunCall owner name i opts r) = True"
| "isClosing e = False"

text \<open>
  How a round ends the handler: after the history \<open>h\<close> the event \<open>e\<close> is either a failed
  fetch, answered by \<^verbatim>\<open>handleFailure\<close>, or a scan that found matches, answered by the
  code for a non-empty list of results; \<open>fin\<close> is what the handler does after \<open>e\<close>.
\<close>

inductive decides ::
  "package \<Rightarrow> PayloadHandler \<Rightarrow> CheckSuiteEvent \<Rightarrow> CheckRun \<Rightarrow> PullRequest
     \<Rightarrow> event list \<Rightarrow> event \<Rightarrow> event list \<Rightarrow> bool"
  for pkg handler checkSuitePayload checkRun pullRequest where
    failed:
      "fetchFailed e \<Longrightarrow> fetchFailureSummary s \<Longrightarrow>
       decides pkg handler checkSuitePayload checkRun pullRequest h e
         (handleFailure handler checkRun s err (h @ [e]))"
  | found:
      "0 < length rs \<Longrightarrow>
       decides pkg handler checkSuitePayload checkRun pullRequest h
         (CheckFileContentFromQueriesCall q (rs, None))
         (actOnResults pkg handler checkSuitePayload checkRun pullRequest rs
            (h @ [CheckFileContentFromQueriesCall q (rs, None)]))"

section \<open>Example runs\<close>

text \<open>
  A platform and a scanner with fixed answers, to run the handlers on. The commits of
  pull request 1 are \<open>[c1]\<close>, those of pull request 2 are \<open>[c2]\<close>; the commits of any other
  pull request cannot be listed. The scanner answers by the commit of the first query.
\<close>

definition exampleRepo :: Repository where
  "exampleRepo = \<lparr>Owner_Login = ''octo'', Repo_Name = ''orca''\<rparr>"

definition exampleCheckRun :: CheckRun where
  "exampleCheckRun =
     \<lparr>ID = 7, HTMLURL = ''https://example.test/runs/7'',
       CheckSuite_Repository = \<lparr>Owner_Login = [], Repo_Name = []\<rparr>\<rparr>"

definition exampleListing :: "int \<Rightarrow> error + RepositoryCommit list" where
  "exampleListing k =
     (if k = 1 then Inr [\<lparr>SHA = ''c1'', Files = []\<rparr>]
      else if k = 2 then Inr [\<lparr>SHA = ''c2'', Files = []\<rparr>]
      else Inl (Error ''not found''))"

definition exampleClient ::
  "PullRequest list \<Rightarrow> error option \<Rightarrow> error option \<Rightarrow> GitHubClient" where
  "exampleClient openPullRequests commentAnswer updateAnswer =
     \<lparr>Checks_CreateCheckRun = (\<lambda>h owner name opts. Inr exampleCheckRun),
       Checks_UpdateCheckRun = (\<lambda>h owner name i opts. updateAnswer),
       PullRequests_List = (\<lambda>h owner name opts. (openPullRequests, None)),
       PullRequests_ListCommits = (\<lambda>h owner name k. exampleListing k),
       Repositories_GetCommit =
         (\<lambda>h owner name sha.
            Inr \<lparr>SHA = sha, Files = [\<lparr>File_Status = ''added'', Filename = ''id_rsa''\<rparr>]\<rparr>),
       Issues_CreateComment = (\<lambda>h owner name k c. commentAnswer),
       Issues_Create = (\<lambda>h owner name req. None)\<rparr>"

definition exampleScanner ::
  "(string \<Rightarrow> CommitScanResult list \<times> error option) \<Rightarrow> Scanner" where
  "exampleScanner answer =
     \<lparr>CheckPush = (\<lambda>h pushPayload. answer ''push''),
       CheckFileContentFromQueries =
         (\<lambda>h fileQueries.
            case fileQueries of [] \<Rightarrow> ([], None) | q # qs \<Rightarrow> answer (CommitSHA q))\<rparr>"

definition exampleHandler ::
  "(string \<Rightarrow> CommitScanResult list \<times> error option) \<Rightarrow> error option \<Rightarrow> error option
     \<Rightarrow> PayloadHandler" where
  "exampleHandler answer commentAnswer updateAnswer =
     \<lparr>InstallationId = 1, AppId = 1,
       GitHubClient = exampleClient [] commentAnswer updateAnswer,
       Scanner = exampleScanner answer\<rparr>"

definition examplePackage :: package where
  "examplePackage =
     \<lparr>BuildMessage = (\<lambda>results. (''title'', ''text'')),
       HandleMatchesFromPush = (\<lambda>h pushPayload results. None),
       FileState_zero = FileAdded\<rparr>"

definition exampleSuite :: "int list \<Rightarrow> CheckSuiteEvent" where
  "exampleSuite numbers =
     \<lparr>Repo = exampleRepo,
       CheckSuite = \<lparr>CheckSuite_ID = 3, HeadSHA = ''c2'',
                     PullRequests = map (\<lambda>k. \<lparr>Number = k\<rparr>) numbers\<rparr>\<rparr>"

definition exampleResult :: "bool \<Rightarrow> CommitScanResult" where
  "exampleResult resolved =
     \<lparr>Commit = ''c1'',
       FileMatches = [\<lparr>FileMatch_Path = ''id_rsa'', FileMatch_URL = ''https://example.test/id_rsa''\<rparr>],
       ContentMatches = [],
       Matches = [\<lparr>Resolved = resolved\<rparr>]\<rparr>"

text \<open>Scanners: every commit has a resolved match; every commit has an unresolved
  match; only \<open>c2\<close> has a match, which is unresolved.\<close>

definition allResolved :: "string \<Rightarrow> CommitScanResult list \<times> error option" where
  "allResolved sha = ([exampleResult True], None)"

definition allUnresolved :: "string \<Rightarrow> CommitScanResult list \<times> error option" where
  "allUnresolved sha = ([exampleResult False], None)"

definition onlySecond :: "string \<Rightarrow> CommitScanResult list \<times> error option" where
  "onlySecond sha = (if sha = ''c2'' then ([exampleResult False], None) else ([], None))"

definition noMatches :: "string \<Rightarrow> CommitScanResult list \<times> error option" where
  "noMatches sha = ([], None)"

text \<open>A push by \<open>alice\<close>, for the push handler and for the remediator.\<close>

definition examplePush :: PushEvent where
  "examplePush = \<lparr>Push_Repo = exampleRepo, Pusher_Name = ''alice'', Ref = ''refs/heads/fix''\<rparr>"

definition examplePayload :: PushPayload where
  "examplePayload = \<lparr>Payload_Repository = exampleRepo, Payload_Pusher_Name = ''alice''\<rparr>"

definition exampleContext :: HandlerContext where
  "exampleContext = \<lparr>GitHubAPIClient = exampleClient [] None None\<rparr>"

text \<open>The pieces the example runs of the check-run handler are made of.\<close>

definition exampleOpening :: "event list" where
  "exampleOpening =
     [Log LevelInfo ''Handling check suite event from %s/%s (%d)'',
      Log LevelDebug ''Creating new check run'',
      CreateCheckRunCall ''octo'' ''orca''
        \<lparr>Create_Name = ''Orca Checks'', Create_HeadSHA = ''c2'',
          Create_Status = ''in_progress''\<rparr> (Inr exampleCheckRun),
      Log LevelDebug ''Check run %d created'']"

definition exampleFetches :: "int \<Rightarrow> string \<Rightarrow> event list" where
  "exampleFetches k sha =
     [ListCommitsCall ''octo'' ''orca'' k (Inr [\<lparr>SHA = sha, Files = []\<rparr>]),
      GetCommitCall ''octo'' ''orca'' sha
        (Inr \<lparr>SHA = sha, Files = [\<lparr>File_Status = ''added'', Filename = ''id_rsa''\<rparr>]\<rparr>)]"

definition exampleScan :: "string \<Rightarrow> CommitScanResult list \<times> error option \<Rightarrow> event" where
  "exampleScan sha answer =
     CheckFileContentFromQueriesCall
       [\<lparr>RepoOwner = ''octo'', RepoName = ''orca'', CommitSHA = sha,
         FileName = ''id_rsa'', Query_Status = FileAdded\<rparr>] answer"

definition exampleUpdate ::
  "string \<Rightarrow> summary \<Rightarrow> string option \<Rightarrow> error option \<Rightarrow> event" where
  "exampleUpdate conclusion summary text answer =
     UpdateCheckRunCall ''octo'' ''orca'' 7
       \<lparr>Status = ''completed'', Conclusion = conclusion,
         Output = \<lparr>Title = ''Orca Checks'', Summary = summary, Text = text\<rparr>\<rparr> answer"

definition exampleCompleted :: event where
  "exampleCompleted =
     Log LevelDebug
       (''Check run %d completed with conclusion '' @ [CHR 0x22] @ ''%s'' @ [CHR 0x22])"

text \<open>
  A platform with its state: the open pull requests, by head, and whether the platform
  answers. Listing the pull requests of a platform that answers gives those whose head
  is the one asked for; on a platform that does not answer, \<^verbatim>\<open>PullRequests.List\<close>
  returns an error and no list.
\<close>

record Platform =
  Platform_open :: "(string \<times> PullRequest) list"
  reachable :: bool

definition listOpen ::
  "Platform \<Rightarrow> PullRequestListOptions \<Rightarrow> PullRequest list \<times> error option" where
  "listOpen platform opts =
     (if reachable platform then
        (map snd (filter (\<lambda>x. fst x = Head opts) (Platform_open platform)), None)
      else ([], Some (Error ''connection refused'')))"

definition examplePlatform :: "bool \<Rightarrow> Platform" where
  "examplePlatform up =
     \<lparr>Platform_open = [(''alice:refs/heads/fix'', \<lparr>Number = 5\<rparr>)], reachable = up\<rparr>"

definition pushHandler :: "Platform \<Rightarrow> PayloadHandler" where
  "pushHandler platform =
     \<lparr>InstallationId = 1, AppId = 1,
       GitHubClient =
         (exampleClient [] None None)
           \<lparr>PullRequests_List := (\<lambda>h owner name opts. listOpen platform opts)\<rparr>,
       Scanner = exampleScanner allUnresolved\<rparr>"

section \<open>Properties\<close>

subsection \<open>Reading a run: basic facts\<close>

lemma updates_append [simp]: "updates (xs @ ys) = updates xs @ updates ys"
  by (induction xs rule: updates.induct) auto

lemma listed_append [simp]: "listed (xs @ ys) = listed xs @ listed ys"
  by (induction xs rule: listed.induct) auto

lemma scans_append [simp]: "scans (xs @ ys) = scans xs @ scans ys"
  by (induction xs rule: scans.induct) auto

lemma apiCalls_append [simp]: "apiCalls (xs @ ys) = apiCalls xs @ apiCalls ys"
  by (simp add: apiCalls_def)

lemma apiCalls_Nil [simp]: "apiCalls [] = []"
  by (simp add: apiCalls_def)

lemma apiCalls_Cons [simp]:
  "apiCalls (e # tr) = (if isLog e then apiCalls tr else e # apiCalls tr)"
  by (simp add: apiCalls_def)

lemma updates_apiCalls: "updates (apiCalls tr) = updates tr"
  by (induction tr rule: updates.induct) auto

lemma listed_apiCalls: "listed (apiCalls tr) = listed tr"
  by (induction tr rule: listed.induct) auto

lemma scans_apiCalls: "scans (apiCalls tr) = scans tr"
  by (induction tr rule: scans.induct) auto

lemma apiCalls_updateCheckRun:
  "\<exists>u. apiCalls (updateCheckRun handler c st con s t h) =
     [UpdateCheckRunCall (Owner_Login (CheckSuite_Repository c))
        (Repo_Name (CheckSuite_Repository c)) (ID c)
        \<lparr>Status = st, Conclusion = con,
          Output = \<lparr>Title = ''Orca Checks'', Summary = s, Text = t\<rparr>\<rparr> u]"
  by (simp add: updateCheckRun_def Let_def split: option.splits)

lemma fetchedCommit_props:
  "fetchedCommit e \<Longrightarrow> clean e \<and> \<not> isLog e \<and> \<not> fetchFailed e \<and> \<not> foundMatches e"
  by (cases e rule: fetchedCommit.cases) auto


lemma fetchedCommit_lists:
  "\<forall>e \<in> set evs. fetchedCommit e \<Longrightarrow>
     listed evs = [] \<and> scans evs = [] \<and> updates evs = [] \<and> apiCalls evs = evs"
proof (induction evs)
  case Nil
  show ?case by simp
next
  case (Cons e evs)
  then have "fetchedCommit e" by simp
  then show ?case using Cons by (cases e rule: fetchedCommit.cases) auto
qed

lemma forCommits_Some:
  "forCommits pkg handler p c pr commits fq h = (Some fq', evs) \<Longrightarrow>
     \<forall>e \<in> set evs. fetchedCommit e"
proof (induction commits arbitrary: fq h evs)
  case Nil
  then show ?case by simp
next
  case (Cons commit commits)
  then show ?case
    by (auto simp: Let_def split: sum.splits prod.splits)
qed

lemma forCommits_None:
  "forCommits pkg handler p c pr commits fq h = (None, evs) \<Longrightarrow>
     \<exists>oks owner name sha err.
       evs = oks @ GetCommitCall owner name sha (Inl err) #
               handleFailure handler c (FailedToGetCommit sha (Number pr)) err
                 (h @ oks @ [GetCommitCall owner name sha (Inl err)])
       \<and> (\<forall>e \<in> set oks. fetchedCommit e)"
proof (induction commits arbitrary: fq h evs)
  case Nil
  then show ?case by simp
next
  case (Cons commit commits)
  let ?o = "Owner_Login (Repo p)" and ?n = "Repo_Name (Repo p)"
  let ?r = "Repositories_GetCommit (GitHubClient handler) h ?o ?n (SHA commit)"
  let ?call = "GetCommitCall ?o ?n (SHA commit) ?r"
  show ?case
  proof (cases ?r)
    case (Inl err)
    with Cons.prems have
      "evs = [] @ GetCommitCall ?o ?n (SHA commit) (Inl err) #
               handleFailure handler c (FailedToGetCommit (SHA commit) (Number pr)) err
                 (h @ [] @ [GetCommitCall ?o ?n (SHA commit) (Inl err)])"
      by (simp add: Let_def)
    then show ?thesis by (metis empty_iff list.set(1))
  next
    case (Inr cwf)
    with Cons.prems obtain evs' where
      rec: "forCommits pkg handler p c pr commits
              (forFiles pkg p (SHA commit) (Files cwf) fq) (h @ [?call]) = (None, evs')"
      and evs: "evs = ?call # evs'"
      by (auto simp: Let_def split: prod.splits)
    from Cons.IH [OF rec] obtain oks owner name sha err where
      shape: "evs' = oks @ GetCommitCall owner name sha (Inl err) #
               handleFailure handler c (FailedToGetCommit sha (Number pr)) err
                 ((h @ [?call]) @ oks @ [GetCommitCall owner name sha (Inl err)])"
      and oks: "\<forall>e \<in> set oks. fetchedCommit e"
      by blast
    have "evs = (?call # oks) @ GetCommitCall owner name sha (Inl err) #
               handleFailure handler c (FailedToGetCommit sha (Number pr)) err
                 (h @ (?call # oks) @ [GetCommitCall owner name sha (Inl err)])"
      using evs shape by simp
    moreover have "\<forall>e \<in> set (?call # oks). fetchedCommit e"
      using oks Inr by simp
    ultimately show ?thesis by blast
  qed
qed


lemma scanPullRequest_True:
  assumes "scanPullRequest pkg handler p c pr h = (True, evs)"
  shows "(\<forall>e \<in> set evs. clean e) \<and> listed evs = [Number pr]
         \<and> scans evs = [([], None)] \<and> updates evs = []"
proof -
  let ?o = "Owner_Login (Repo p)" and ?n = "Repo_Name (Repo p)"
  let ?r = "PullRequests_ListCommits (GitHubClient handler) h ?o ?n (Number pr)"
  let ?listing = "ListCommitsCall ?o ?n (Number pr) ?r"
  from assms obtain commits where r: "?r = Inr commits"
    by (cases ?r) (auto simp: scanPullRequest_def Let_def)
  from assms r obtain fq gets where
    g: "forCommits pkg handler p c pr commits [] (h @ [?listing]) = (Some fq, gets)"
    by (cases "forCommits pkg handler p c pr commits [] (h @ [?listing])")
       (auto simp: scanPullRequest_def Let_def split: option.splits)
  let ?s = "CheckFileContentFromQueries (Scanner handler) (h @ ?listing # gets) fq"
  from assms r g have s': "snd ?s = None" "fst ?s = []"
    and evs: "evs = ?listing # gets @
                [CheckFileContentFromQueriesCall fq ?s, Log LevelDebug ''No matches to address'']"
    by (simp_all add: scanPullRequest_def Let_def split: option.splits if_splits)
  from s' have s: "?s = ([], None)"
    by (simp add: prod_eq_iff)
  have gets: "\<forall>e \<in> set gets. fetchedCommit e"
    using forCommits_Some [OF g] .
  then have "\<forall>e \<in> set gets. clean e"
    using fetchedCommit_props by blast
  moreover note fetchedCommit_lists [OF gets]
  ultimately show ?thesis
    using evs r s by simp
qed

lemma scanPullRequest_False:
  assumes "scanPullRequest pkg handler p c pr h = (False, evs)"
  shows "\<exists>cl e fin. evs = cl @ e # fin \<and> (\<forall>x \<in> set cl. clean x)
           \<and> listed (cl @ [e]) = [Number pr] \<and> scans cl = [] \<and> updates cl = []
           \<and> decides pkg handler p c pr (h @ cl) e fin"
proof -
  let ?o = "Owner_Login (Repo p)" and ?n = "Repo_Name (Repo p)"
  let ?r = "PullRequests_ListCommits (GitHubClient handler) h ?o ?n (Number pr)"
  let ?listing = "ListCommitsCall ?o ?n (Number pr) ?r"
  show ?thesis
  proof (cases ?r)
    case (Inl err)
    with assms have
      "evs = [] @ ?listing # handleFailure handler c (FailedToGetCommits (Number pr)) err
                              ((h @ []) @ [?listing])"
      by (simp add: scanPullRequest_def Let_def)
    moreover have "decides pkg handler p c pr (h @ []) ?listing
        (handleFailure handler c (FailedToGetCommits (Number pr)) err ((h @ []) @ [?listing]))"
      using Inl by (intro decides.failed) simp_all
    moreover have "listed ([] @ [?listing]) = [Number pr]" by simp
    ultimately show ?thesis
      by (metis empty_iff list.set(1) scans.simps(1) updates.simps(1))
  next
    case (Inr commits)
    show ?thesis
    proof (cases "forCommits pkg handler p c pr commits [] (h @ [?listing])")
      case (Pair res gets)
      show ?thesis
      proof (cases res)
        case None
        from forCommits_None [OF Pair [unfolded None]]
        obtain oks owner name sha err where
          gets: "gets = oks @ GetCommitCall owner name sha (Inl err) #
               handleFailure handler c (FailedToGetCommit sha (Number pr)) err
                 ((h @ [?listing]) @ oks @ [GetCommitCall owner name sha (Inl err)])"
          and oks: "\<forall>e \<in> set oks. fetchedCommit e"
          by blast
        let ?e = "GetCommitCall owner name sha (Inl err)"
        let ?cl = "?listing # oks"
        from assms Inr Pair None have "evs = ?listing # gets"
          by (simp add: scanPullRequest_def Let_def)
        with gets have "evs = ?cl @ ?e #
            handleFailure handler c (FailedToGetCommit sha (Number pr)) err ((h @ ?cl) @ [?e])"
          by simp
        moreover have "decides pkg handler p c pr (h @ ?cl) ?e
            (handleFailure handler c (FailedToGetCommit sha (Number pr)) err ((h @ ?cl) @ [?e]))"
          by (intro decides.failed) simp_all
        moreover have "\<forall>x \<in> set ?cl. clean x"
          using oks fetchedCommit_props Inr by auto
        moreover have "listed (?cl @ [?e]) = [Number pr]" "scans ?cl = []" "updates ?cl = []"
          using fetchedCommit_lists [OF oks] Inr by simp_all
        ultimately show ?thesis by blast
      next
        case (Some fq)
        let ?s = "CheckFileContentFromQueries (Scanner handler) (h @ ?listing # gets) fq"
        let ?e = "CheckFileContentFromQueriesCall fq ?s"
        let ?cl = "?listing # gets"
        have gets: "\<forall>e \<in> set gets. fetchedCommit e"
          using forCommits_Some [OF Pair [unfolded Some]] .
        have cl: "\<forall>x \<in> set ?cl. clean x"
          using gets fetchedCommit_props Inr by auto
        have ls: "listed (?cl @ [?e]) = [Number pr]" "scans ?cl = []" "updates ?cl = []"
          using fetchedCommit_lists [OF gets] Inr by simp_all
        show ?thesis
        proof (cases "snd ?s")
          case (Some err)
          then have s: "?s = (fst ?s, Some err)" by (simp add: prod_eq_iff)
          from assms Inr Pair \<open>res = Some fq\<close> Some have
            "evs = ?cl @ ?e # handleFailure handler c (FailedToScanCommits (Number pr)) err
                                ((h @ ?cl) @ [?e])"
            by (simp add: scanPullRequest_def Let_def)
          moreover have "decides pkg handler p c pr (h @ ?cl) ?e
              (handleFailure handler c (FailedToScanCommits (Number pr)) err ((h @ ?cl) @ [?e]))"
          proof (intro decides.failed)
            show "fetchFailed ?e" by (subst s) simp
          qed simp_all
          ultimately show ?thesis using cl ls by blast
        next
          case None
          then have s: "?s = (fst ?s, None)" by (simp add: prod_eq_iff)
          from assms Inr Pair \<open>res = Some fq\<close> None have
            pos: "0 < length (fst ?s)" and
            "evs = ?cl @ ?e # actOnResults pkg handler p c pr (fst ?s) ((h @ ?cl) @ [?e])"
            by (auto simp: scanPullRequest_def Let_def split: if_splits)
          moreover have "decides pkg handler p c pr (h @ ?cl) ?e
              (actOnResults pkg handler p c pr (fst ?s) ((h @ ?cl) @ [?e]))"
            using decides.found [OF pos, of pkg handler p c pr "h @ ?cl" fq] s by simp
          ultimately show ?thesis using cl ls by blast
        qed
      qed
    qed
  qed
qed


lemma forPullRequests_True:
  "forPullRequests pkg handler p c prs h = (True, evs) \<Longrightarrow>
     (\<forall>e \<in> set evs. clean e) \<and> listed evs = map Number prs
     \<and> scans evs = replicate (length prs) ([], None) \<and> updates evs = []"
proof (induction prs arbitrary: h evs)
  case Nil
  then show ?case by simp
next
  case (Cons pr prs)
  obtain b ev where step: "scanPullRequest pkg handler p c pr h = (b, ev)"
    by (cases "scanPullRequest pkg handler p c pr h")
  with Cons.prems have b: "b" by (cases b) auto
  obtain b' ev' where rest: "forPullRequests pkg handler p c prs (h @ ev) = (b', ev')"
    by (cases "forPullRequests pkg handler p c prs (h @ ev)")
  from Cons.prems step b rest have "b'" and evs: "evs = ev @ ev'"
    by simp_all
  from step b have step': "scanPullRequest pkg handler p c pr h = (True, ev)"
    by simp
  from rest \<open>b'\<close> have rest': "forPullRequests pkg handler p c prs (h @ ev) = (True, ev')"
    by simp
  from Cons.IH [OF rest'] scanPullRequest_True [OF step'] evs
  show ?case by auto
qed

lemma forPullRequests_False:
  "forPullRequests pkg handler p c prs h = (False, evs) \<Longrightarrow>
     \<exists>cl e fin before pr rest.
       prs = before @ pr # rest \<and> evs = cl @ e # fin \<and> (\<forall>x \<in> set cl. clean x)
       \<and> listed (cl @ [e]) = map Number (before @ [pr])
       \<and> scans cl = replicate (length before) ([], None) \<and> updates cl = []
       \<and> decides pkg handler p c pr (h @ cl) e fin"
proof (induction prs arbitrary: h evs)
  case Nil
  then show ?case by simp
next
  case (Cons pr prs)
  obtain b ev where step: "scanPullRequest pkg handler p c pr h = (b, ev)"
    by (cases "scanPullRequest pkg handler p c pr h")
  show ?case
  proof (cases b)
    case False
    with Cons.prems step have "evs = ev"
      and step': "scanPullRequest pkg handler p c pr h = (False, ev)" by simp_all
    with scanPullRequest_False [OF step']
    obtain cl e fin where
      "evs = cl @ e # fin" "\<forall>x \<in> set cl. clean x" "listed (cl @ [e]) = map Number ([] @ [pr])"
      "scans cl = replicate (length ([]::PullRequest list)) ([], None)" "updates cl = []"
      "decides pkg handler p c pr (h @ cl) e fin"
      by auto
    moreover have "pr # prs = [] @ pr # prs" by simp
    ultimately show ?thesis by blast
  next
    case True
    obtain b' ev' where rest: "forPullRequests pkg handler p c prs (h @ ev) = (b', ev')"
      by (cases "forPullRequests pkg handler p c prs (h @ ev)")
    from Cons.prems step True rest have b': "\<not> b'" and evs: "evs = ev @ ev'"
      by simp_all
    from rest b' have rest': "forPullRequests pkg handler p c prs (h @ ev) = (False, ev')"
      by simp
    from step True have step': "scanPullRequest pkg handler p c pr h = (True, ev)"
      by simp
    from Cons.IH [OF rest']
    obtain cl e fin before pr' rest' where
      prs: "prs = before @ pr' # rest'" and ev': "ev' = cl @ e # fin"
      and cl: "\<forall>x \<in> set cl. clean x"
      and ls: "listed (cl @ [e]) = map Number (before @ [pr'])"
        "scans cl = replicate (length before) ([], None)" "updates cl = []"
      and d: "decides pkg handler p c pr' ((h @ ev) @ cl) e fin"
      by blast
    note st = scanPullRequest_True [OF step']
    have "pr # prs = (pr # before) @ pr' # rest'" using prs by simp
    moreover have "evs = (ev @ cl) @ e # fin" using evs ev' by simp
    moreover have "\<forall>x \<in> set (ev @ cl). clean x" using st cl by auto
    moreover have "listed ((ev @ cl) @ [e]) = map Number ((pr # before) @ [pr'])"
      using st ls by simp
    moreover have "scans (ev @ cl) = replicate (length (pr # before)) ([], None)"
      using st ls by simp
    moreover have "updates (ev @ cl) = []" using st ls by simp
    moreover have "decides pkg handler p c pr' (h @ ev @ cl) e fin" using d by simp
    ultimately show ?thesis by blast
  qed
qed

lemma split_unique:
  assumes "xs @ e # ys = pre @ e' # post"
    and "\<forall>x \<in> set xs. \<not> D x" and "\<forall>y \<in> set ys. \<not> D y" and "D e'"
  shows "pre = xs \<and> e' = e \<and> post = ys"
  using assms
proof (induction xs arbitrary: pre)
  case Nil
  then show ?case by (cases pre) auto
next
  case (Cons x xs)
  then show ?case by (cases pre) auto
qed


lemma updateCheckRun_shape:
  "\<exists>u logs.
     updateCheckRun handler c st con s t h =
       UpdateCheckRunCall (Owner_Login (CheckSuite_Repository c))
         (Repo_Name (CheckSuite_Repository c)) (ID c)
         \<lparr>Status = st, Conclusion = con,
           Output = \<lparr>Title = ''Orca Checks'', Summary = s, Text = t\<rparr>\<rparr> u # logs
     \<and> (\<forall>x \<in> set logs. isLog x)
     \<and> (u \<noteq> None \<longrightarrow> Log LevelError ''Failed to update check run %d: %v'' \<in> set logs)"
  by (cases "Checks_UpdateCheckRun (GitHubClient handler) h
               (Owner_Login (CheckSuite_Repository c)) (Repo_Name (CheckSuite_Repository c)) (ID c)
               \<lparr>Status = st, Conclusion = con,
                 Output = \<lparr>Title = ''Orca Checks'', Summary = s, Text = t\<rparr>\<rparr>")
     (simp_all add: updateCheckRun_def Let_def)

lemma apiCalls_handleFailure:
  "\<exists>u. apiCalls (handleFailure handler c s err h) =
     [UpdateCheckRunCall (Owner_Login (CheckSuite_Repository c))
        (Repo_Name (CheckSuite_Repository c)) (ID c)
        \<lparr>Status = checkRunStatusCompleted, Conclusion = checkRunConclusionFailure,
          Output = \<lparr>Title = ''Orca Checks'', Summary = s, Text = None\<rparr>\<rparr> u]"
  using apiCalls_updateCheckRun [of handler c checkRunStatusCompleted checkRunConclusionFailure s None h]
  by (auto simp: handleFailure_def)

lemma apiCalls_completeCheckRun:
  "\<exists>u. apiCalls (completeCheckRun handler c con s t h) =
     [UpdateCheckRunCall (Owner_Login (CheckSuite_Repository c))
        (Repo_Name (CheckSuite_Repository c)) (ID c)
        \<lparr>Status = checkRunStatusCompleted, Conclusion = con,
          Output = \<lparr>Title = ''Orca Checks'', Summary = s, Text = t\<rparr>\<rparr> u]"
  using apiCalls_updateCheckRun [of handler c checkRunStatusCompleted con s t h]
  by (auto simp: completeCheckRun_def)

lemma apiCalls_actOnResults_resolved:
  assumes "AllMatchesAreResolved rs"
  shows "\<exists>r u. apiCalls (actOnResults pkg handler p c pr rs h) =
     [CreateCommentCall (Owner_Login (Repo p)) (Repo_Name (Repo p)) (Number pr)
        \<lparr>Body = reminderBody c\<rparr> r,
      UpdateCheckRunCall (Owner_Login (CheckSuite_Repository c))
        (Repo_Name (CheckSuite_Repository c)) (ID c)
        \<lparr>Status = checkRunStatusCompleted,
          Conclusion = (if r = None then checkRunConclusionSuccess
                        else checkRunConclusionFailure),
          Output = \<lparr>Title = ''Orca Checks'',
                    Summary = (if r = None then SummaryText (fst (BuildMessage pkg rs))
                               else FailedToReply),
                    Text = (if r = None then Some (snd (BuildMessage pkg rs)) else None)\<rparr>\<rparr> u]"
proof -
  let ?l = "Log LevelInfo
              ''Matches found but resolved in pull request #%d, passing check with reminder''"
  let ?r = "Issues_CreateComment (GitHubClient handler) (h @ [?l]) (Owner_Login (Repo p))
              (Repo_Name (Repo p)) (Number pr) \<lparr>Body = reminderBody c\<rparr>"
  let ?call = "CreateCommentCall (Owner_Login (Repo p)) (Repo_Name (Repo p)) (Number pr)
                 \<lparr>Body = reminderBody c\<rparr> ?r"
  show ?thesis
  proof (cases ?r)
    case None
    then have "actOnResults pkg handler p c pr rs h =
        [?l, ?call] @ completeCheckRun handler c checkRunConclusionSuccess
                        (SummaryText (fst (BuildMessage pkg rs)))
                        (Some (snd (BuildMessage pkg rs))) (h @ [?l, ?call])"
      using assms by (simp add: actOnResults_def Let_def)
    with apiCalls_completeCheckRun [of handler c checkRunConclusionSuccess
        "SummaryText (fst (BuildMessage pkg rs))" "Some (snd (BuildMessage pkg rs))"
        "h @ [?l, ?call]"] None
    show ?thesis by auto
  next
    case (Some e)
    then have "actOnResults pkg handler p c pr rs h =
        [?l, ?call] @ handleFailure handler c FailedToReply e (h @ [?l, ?call])"
      using assms by (simp add: actOnResults_def Let_def)
    with apiCalls_handleFailure [of handler c FailedToReply e "h @ [?l, ?call]"] Some
    show ?thesis by auto
  qed
qed

lemma apiCalls_actOnResults_unresolved:
  assumes "\<not> AllMatchesAreResolved rs"
  shows "\<exists>u. apiCalls (actOnResults pkg handler p c pr rs h) =
     [UpdateCheckRunCall (Owner_Login (CheckSuite_Repository c))
        (Repo_Name (CheckSuite_Repository c)) (ID c)
        \<lparr>Status = checkRunStatusCompleted, Conclusion = checkRunConclusionFailure,
          Output = \<lparr>Title = ''Orca Checks'',
                    Summary = SummaryText (fst (BuildMessage pkg rs)),
                    Text = Some (snd (BuildMessage pkg rs))\<rparr>\<rparr> u]"
proof -
  let ?l = "Log LevelDebug ''Potentially sensitive information detected, failing check''"
  have "actOnResults pkg handler p c pr rs h =
      ?l # completeCheckRun handler c checkRunConclusionFailure
             (SummaryText (fst (BuildMessage pkg rs)))
             (Some (snd (BuildMessage pkg rs))) (h @ [?l])"
    using assms by (simp add: actOnResults_def Let_def)
  with apiCalls_completeCheckRun [of handler c checkRunConclusionFailure
      "SummaryText (fst (BuildMessage pkg rs))" "Some (snd (BuildMessage pkg rs))" "h @ [?l]"]
  show ?thesis by auto
qed


lemma decisive_props:
  "fetchFailed e \<or> foundMatches e \<Longrightarrow>
     updates (e # tr) = updates tr \<and> isFetch e \<and> \<not> isLog e \<and> \<not> clean e"
  by (cases e rule: clean.cases) auto

lemma decides_decisive:
  "decides pkg handler p c pr h e fin \<Longrightarrow> fetchFailed e \<or> foundMatches e"
  by (cases rule: decides.cases) auto

lemma in_apiCalls: "x \<in> set tr \<Longrightarrow> isLog x \<or> x \<in> set (apiCalls tr)"
  by (simp add: apiCalls_def)

lemma decides_failed:
  assumes "decides pkg handler p c pr h e fin" and "fetchFailed e"
  shows "\<exists>s u. fetchFailureSummary s \<and> apiCalls fin =
     [UpdateCheckRunCall (Owner_Login (CheckSuite_Repository c))
        (Repo_Name (CheckSuite_Repository c)) (ID c)
        \<lparr>Status = checkRunStatusCompleted, Conclusion = checkRunConclusionFailure,
          Output = \<lparr>Title = ''Orca Checks'', Summary = s, Text = None\<rparr>\<rparr> u]"
  using assms
proof (cases rule: decides.cases)
  case (failed s err)
  then show ?thesis using apiCalls_handleFailure [of handler c s err "h @ [e]"] by blast
next
  case (found rs q)
  with assms(2) show ?thesis by simp
qed

lemma decides_found:
  assumes "decides pkg handler p c pr h (CheckFileContentFromQueriesCall q (rs, None)) fin"
  shows "0 < length rs \<and>
         fin = actOnResults pkg handler p c pr rs
                 (h @ [CheckFileContentFromQueriesCall q (rs, None)])"
  using assms by (cases rule: decides.cases) auto

lemma decides_verdict:
  assumes "decides pkg handler p c pr h e fin"
  shows "\<exists>con. verdicts fin = [(checkRunStatusCompleted, con)]
           \<and> (con = checkRunConclusionSuccess \<or> con = checkRunConclusionFailure)
           \<and> (fetchFailed e \<longrightarrow> con = checkRunConclusionFailure)
           \<and> (\<forall>q rs. e = CheckFileContentFromQueriesCall q (rs, None)
                 \<and> \<not> AllMatchesAreResolved rs \<longrightarrow> con = checkRunConclusionFailure)
           \<and> (\<forall>q rs. e = CheckFileContentFromQueriesCall q (rs, None)
                 \<and> con = checkRunConclusionSuccess \<longrightarrow> AllMatchesAreResolved rs)"
  using assms
proof (cases rule: decides.cases)
  case (failed s err)
  obtain u where "apiCalls fin =
     [UpdateCheckRunCall (Owner_Login (CheckSuite_Repository c))
        (Repo_Name (CheckSuite_Repository c)) (ID c)
        \<lparr>Status = checkRunStatusCompleted, Conclusion = checkRunConclusionFailure,
          Output = \<lparr>Title = ''Orca Checks'', Summary = s, Text = None\<rparr>\<rparr> u]"
    using apiCalls_handleFailure [of handler c s err "h @ [e]"] failed by auto
  then have "updates (apiCalls fin) =
     [\<lparr>Status = checkRunStatusCompleted, Conclusion = checkRunConclusionFailure,
          Output = \<lparr>Title = ''Orca Checks'', Summary = s, Text = None\<rparr>\<rparr>]"
    by simp
  then have "verdicts fin = [(checkRunStatusCompleted, checkRunConclusionFailure)]"
    by (simp add: verdicts_def updates_apiCalls)
  moreover have "checkRunConclusionSuccess \<noteq> checkRunConclusionFailure"
    by (simp add: checkRunConclusionSuccess_def checkRunConclusionFailure_def)
  ultimately show ?thesis by auto
next
  case (found rs q)
  have ne: "checkRunConclusionSuccess \<noteq> checkRunConclusionFailure"
    by (simp add: checkRunConclusionSuccess_def checkRunConclusionFailure_def)
  show ?thesis
  proof (cases "AllMatchesAreResolved rs")
    case True
    from apiCalls_actOnResults_resolved [OF True, of pkg handler p c pr "h @ [e]"]
    obtain r u where "apiCalls fin =
     [CreateCommentCall (Owner_Login (Repo p)) (Repo_Name (Repo p)) (Number pr)
        \<lparr>Body = reminderBody c\<rparr> r,
      UpdateCheckRunCall (Owner_Login (CheckSuite_Repository c))
        (Repo_Name (CheckSuite_Repository c)) (ID c)
        \<lparr>Status = checkRunStatusCompleted,
          Conclusion = (if r = None then checkRunConclusionSuccess
                        else checkRunConclusionFailure),
          Output = \<lparr>Title = ''Orca Checks'',
                    Summary = (if r = None then SummaryText (fst (BuildMessage pkg rs))
                               else FailedToReply),
                    Text = (if r = None then Some (snd (BuildMessage pkg rs)) else None)\<rparr>\<rparr> u]"
      using found by auto
    then have "updates (apiCalls fin) =
       [\<lparr>Status = checkRunStatusCompleted,
          Conclusion = (if r = None then checkRunConclusionSuccess
                        else checkRunConclusionFailure),
          Output = \<lparr>Title = ''Orca Checks'',
                    Summary = (if r = None then SummaryText (fst (BuildMessage pkg rs))
                               else FailedToReply),
                    Text = (if r = None then Some (snd (BuildMessage pkg rs)) else None)\<rparr>\<rparr>]"
      by simp
    then have "verdicts fin = [(checkRunStatusCompleted,
        if r = None then checkRunConclusionSuccess else checkRunConclusionFailure)]"
      by (simp add: verdicts_def updates_apiCalls)
    then show ?thesis using found True by auto
  next
    case False
    from apiCalls_actOnResults_unresolved [OF False, of pkg handler p c pr "h @ [e]"]
    obtain u where "apiCalls fin =
     [UpdateCheckRunCall (Owner_Login (CheckSuite_Repository c))
        (Repo_Name (CheckSuite_Repository c)) (ID c)
        \<lparr>Status = checkRunStatusCompleted, Conclusion = checkRunConclusionFailure,
          Output = \<lparr>Title = ''Orca Checks'',
                    Summary = SummaryText (fst (BuildMessage pkg rs)),
                    Text = Some (snd (BuildMessage pkg rs))\<rparr>\<rparr> u]"
      using found by auto
    then have "updates (apiCalls fin) =
       [\<lparr>Status = checkRunStatusCompleted, Conclusion = checkRunConclusionFailure,
          Output = \<lparr>Title = ''Orca Checks'',
                    Summary = SummaryText (fst (BuildMessage pkg rs)),
                    Text = Some (snd (BuildMessage pkg rs))\<rparr>\<rparr>]"
      by simp
    then have "verdicts fin = [(checkRunStatusCompleted, checkRunConclusionFailure)]"
      by (simp add: verdicts_def updates_apiCalls)
    then show ?thesis using found False ne by auto
  qed
qed

lemma isClosing_props: "isClosing x \<Longrightarrow> \<not> isFetch x \<and> \<not> fetchFailed x \<and> \<not> foundMatches x"
  by (cases x rule: isClosing.cases) auto

lemma isLog_isClosing: "isLog x \<Longrightarrow> isClosing x"
  by (cases x) auto

lemma decides_closing:
  assumes "decides pkg handler p c pr h e fin"
  shows "\<forall>x \<in> set fin. isClosing x"
proof
  fix x assume x: "x \<in> set fin"
  have api: "\<forall>y \<in> set (apiCalls fin). isClosing y"
    using assms
  proof (cases rule: decides.cases)
    case (failed s err)
    then show ?thesis using apiCalls_handleFailure [of handler c s err "h @ [e]"] by auto
  next
    case (found rs q)
    show ?thesis
    proof (cases "AllMatchesAreResolved rs")
      case True
      from apiCalls_actOnResults_resolved [OF True, of pkg handler p c pr "h @ [e]"] found
      show ?thesis by auto
    next
      case False
      from apiCalls_actOnResults_unresolved [OF False, of pkg handler p c pr "h @ [e]"] found
      show ?thesis by auto
    qed
  qed
  from in_apiCalls [OF x] show "isClosing x"
  proof
    assume "isLog x" then show ?thesis by (rule isLog_isClosing)
  next
    assume "x \<in> set (apiCalls fin)" with api show ?thesis by blast
  qed
qed

lemma decides_no_fetch:
  "decides pkg handler p c pr h e fin \<Longrightarrow> \<forall>x \<in> set fin. \<not> isFetch x"
  using decides_closing isClosing_props by blast

lemma HandleCheckSuite_cases:
  fixes pkg handler p
  defines "tr \<equiv> HandleCheckSuite pkg handler p"
    and "prs \<equiv> PullRequests (CheckSuite p)"
    and "opts \<equiv> \<lparr>Create_Name = ''Orca Checks'', Create_HeadSHA = HeadSHA (CheckSuite p),
                  Create_Status = checkRunStatusInProgress\<rparr>"
  obtains
    (create_failed) err where
      "apiCalls tr = [CreateCheckRunCall (Owner_Login (Repo p)) (Repo_Name (Repo p)) opts (Inl err)]"
  | (skipped) h2 created where
      "apiCalls h2 = [CreateCheckRunCall (Owner_Login (Repo p)) (Repo_Name (Repo p)) opts (Inr created)]"
      "prs = []"
      "tr = h2 @ completeCheckRun handler (created\<lparr>CheckSuite_Repository := Repo p\<rparr>)
                   checkRunConclusionSkipped NoPullRequestsFound None h2
               @ [Log LevelInfo ''No pull request exists, skipping'']"
  | (all_clear) h2 created cl where
      "apiCalls h2 = [CreateCheckRunCall (Owner_Login (Repo p)) (Repo_Name (Repo p)) opts (Inr created)]"
      "prs \<noteq> []"
      "tr = h2 @ cl @ completeCheckRun handler (created\<lparr>CheckSuite_Repository := Repo p\<rparr>)
                        checkRunConclusionSuccess NoIssuesDetected None (h2 @ cl)"
      "\<forall>x \<in> set cl. clean x" "listed cl = map Number prs"
      "scans cl = replicate (length prs) ([], None)" "updates cl = []"
  | (decided) h2 created cl e fin before pr rest where
      "apiCalls h2 = [CreateCheckRunCall (Owner_Login (Repo p)) (Repo_Name (Repo p)) opts (Inr created)]"
      "prs = before @ pr # rest"
      "tr = h2 @ cl @ e # fin"
      "\<forall>x \<in> set cl. clean x" "listed (cl @ [e]) = map Number (before @ [pr])"
      "scans cl = replicate (length before) ([], None)" "updates cl = []"
      "decides pkg handler p (created\<lparr>CheckSuite_Repository := Repo p\<rparr>) pr (h2 @ cl) e fin"
proof -
  let ?o = "Owner_Login (Repo p)" and ?n = "Repo_Name (Repo p)"
  let ?h0 = "[Log LevelInfo ''Handling check suite event from %s/%s (%d)'',
              Log LevelDebug ''Creating new check run'']"
  let ?r = "Checks_CreateCheckRun (GitHubClient handler) ?h0 ?o ?n opts"
  show thesis
  proof (cases ?r)
    case (Inl err)
    then have "apiCalls tr = [CreateCheckRunCall ?o ?n opts (Inl err)]"
      by (simp add: tr_def opts_def HandleCheckSuite_def Let_def)
    then show thesis by (rule create_failed)
  next
    case (Inr created)
    let ?c = "created\<lparr>CheckSuite_Repository := Repo p\<rparr>"
    let ?h2 = "?h0 @ [CreateCheckRunCall ?o ?n opts (Inr created),
                      Log LevelDebug ''Check run %d created'']"
    have h2: "apiCalls ?h2 = [CreateCheckRunCall ?o ?n opts (Inr created)]"
      by simp
    show thesis
    proof (cases "prs = []")
      case True
      with Inr have "tr = ?h2 @ completeCheckRun handler ?c checkRunConclusionSkipped
                            NoPullRequestsFound None ?h2
                        @ [Log LevelInfo ''No pull request exists, skipping'']"
        by (simp add: tr_def opts_def prs_def HandleCheckSuite_def Let_def)
      with h2 True show thesis by (rule skipped)
    next
      case False
      obtain b evs where loop: "forPullRequests pkg handler p ?c prs ?h2 = (b, evs)"
        by (cases "forPullRequests pkg handler p ?c prs ?h2")
      show thesis
      proof (cases b)
        case True
        with loop have loop': "forPullRequests pkg handler p ?c prs ?h2 = (True, evs)"
          by simp
        with Inr False have "tr = ?h2 @ evs @ completeCheckRun handler ?c
                 checkRunConclusionSuccess NoIssuesDetected None (?h2 @ evs)"
          by (simp add: tr_def opts_def prs_def HandleCheckSuite_def Let_def)
        with h2 False forPullRequests_True [OF loop'] show thesis
          by (intro all_clear [of ?h2 created evs]) simp_all
      next
        case b: False
        with loop have loop': "forPullRequests pkg handler p ?c prs ?h2 = (False, evs)"
          by simp
        with Inr False have tr: "tr = ?h2 @ evs"
          by (simp add: tr_def opts_def prs_def HandleCheckSuite_def Let_def)
        from forPullRequests_False [OF loop']
        obtain cl e fin before pr rest where
          "prs = before @ pr # rest" "evs = cl @ e # fin" "\<forall>x \<in> set cl. clean x"
          "listed (cl @ [e]) = map Number (before @ [pr])"
          "scans cl = replicate (length before) ([], None)" "updates cl = []"
          "decides pkg handler p ?c pr (?h2 @ cl) e fin"
          by blast
        with h2 tr show thesis
          by (intro decided [of ?h2 created before pr rest cl e fin]) simp_all
      qed
    qed
  qed
qed

lemma clean_not_decisive: "clean x \<Longrightarrow> \<not> fetchFailed x \<and> \<not> foundMatches x"
  by (cases x rule: clean.cases) auto

lemma isLog_not_decisive: "isLog x \<Longrightarrow> \<not> fetchFailed x \<and> \<not> foundMatches x \<and> \<not> isFetch x"
  by (cases x) auto

lemma isFetch_decisive: "fetchFailed x \<or> foundMatches x \<Longrightarrow> isFetch x"
  by (cases x rule: clean.cases) auto

lemma head_not_decisive:
  assumes "apiCalls h2 = [CreateCheckRunCall owner name opts r]" and "x \<in> set h2"
  shows "\<not> isFetch x"
  using in_apiCalls [OF assms(2)] assms(1) isLog_not_decisive by auto

lemma updateCheckRun_no_fetch:
  "x \<in> set (updateCheckRun handler c st con s t h) \<Longrightarrow> \<not> isFetch x"
  using in_apiCalls [of x "updateCheckRun handler c st con s t h"]
        apiCalls_updateCheckRun [of handler c st con s t h] isLog_not_decisive
  by auto

lemma completeCheckRun_no_fetch:
  "x \<in> set (completeCheckRun handler c con s t h) \<Longrightarrow> \<not> isFetch x"
  using updateCheckRun_no_fetch by (auto simp: completeCheckRun_def)

lemma HandleCheckSuite_decisive:
  assumes tr: "HandleCheckSuite pkg handler p = pre @ e # post"
    and e: "fetchFailed e \<or> foundMatches e"
  obtains h2 created cl before pr rest where
    "pre = h2 @ cl"
    "apiCalls h2 = [CreateCheckRunCall (Owner_Login (Repo p)) (Repo_Name (Repo p))
        \<lparr>Create_Name = ''Orca Checks'', Create_HeadSHA = HeadSHA (CheckSuite p),
          Create_Status = checkRunStatusInProgress\<rparr> (Inr created)]"
    "PullRequests (CheckSuite p) = before @ pr # rest"
    "\<forall>x \<in> set cl. clean x" "listed (cl @ [e]) = map Number (before @ [pr])"
    "scans cl = replicate (length before) ([], None)" "updates cl = []"
    "decides pkg handler p (created\<lparr>CheckSuite_Repository := Repo p\<rparr>) pr pre e post"
proof -
  let ?D = "\<lambda>x. fetchFailed x \<or> foundMatches x"
  have mem: "e \<in> set (HandleCheckSuite pkg handler p)" using tr by simp
  have fe: "isFetch e" using e by (rule isFetch_decisive)
  show thesis
  proof (cases pkg handler p rule: HandleCheckSuite_cases)
    case (create_failed err)
    with in_apiCalls [OF mem] fe isLog_not_decisive show ?thesis by auto
  next
    case (skipped h2 created)
    with mem fe head_not_decisive [OF skipped(1)] completeCheckRun_no_fetch
    show ?thesis by auto
  next
    case (all_clear h2 created cl)
    with mem fe head_not_decisive [OF all_clear(1)] completeCheckRun_no_fetch
         clean_not_decisive e
    show ?thesis by auto
  next
    case (decided h2 created cl e' fin before pr rest)
    have "(h2 @ cl) @ e' # fin = pre @ e # post"
      using decided(3) tr by simp
    moreover have "\<forall>x \<in> set (h2 @ cl). \<not> ?D x"
      using head_not_decisive [OF decided(1)] decided(4) clean_not_decisive isFetch_decisive
      by auto
    moreover have "\<forall>y \<in> set fin. \<not> ?D y"
      using decides_no_fetch [OF decided(8)] isFetch_decisive by blast
    ultimately have "pre = h2 @ cl \<and> e = e' \<and> post = fin"
      using e by (intro split_unique [where D = ?D]) 
    with decided show ?thesis by (intro that [of h2 cl created before pr rest]) simp_all
  qed
qed

subsection \<open>The resolution predicate\<close>

lemma returnsFalseIn_iff:
  "returnsFalseIn ms \<longleftrightarrow> (\<exists>m \<in> set ms. \<not> Resolved m)"
  by (induction ms) auto

lemma AllMatchesAreResolved_iff:
  "AllMatchesAreResolved rs \<longleftrightarrow> (\<forall>r \<in> set rs. \<forall>m \<in> set (Matches r). Resolved m)"
  by (induction rs) (auto simp: returnsFalseIn_iff)

text \<open>
  C1. \<^verbatim>\<open>AllMatchesAreResolved\<close> is true on the empty list of scan results; it is false
  exactly when some match of some result has \<open>Resolved = false\<close>; that is, it is true
  exactly when every match of every result is resolved.
\<close>

theorem C1_AllMatchesAreResolved:
  "AllMatchesAreResolved [] = True
   \<and> (AllMatchesAreResolved rs = False
        \<longleftrightarrow> (\<exists>r \<in> set rs. \<exists>m \<in> set (Matches r). Resolved m = False))
   \<and> (AllMatchesAreResolved rs = True
        \<longleftrightarrow> (\<forall>r \<in> set rs. \<forall>m \<in> set (Matches r). Resolved m = True))"
  by (simp add: AllMatchesAreResolved_iff)

theorem C1_AllMatchesAreResolved_witness:
  "AllMatchesAreResolved
     [\<lparr>Commit = ''c1'', FileMatches = [], ContentMatches = [],
       Matches = [\<lparr>Resolved = True\<rparr>]\<rparr>,
      \<lparr>Commit = ''c2'', FileMatches = [], ContentMatches = [],
       Matches = [\<lparr>Resolved = True\<rparr>, \<lparr>Resolved = False\<rparr>]\<rparr>] = False
   \<and> (\<exists>r \<in> set [\<lparr>Commit = ''c1'', FileMatches = [], ContentMatches = [],
                    Matches = [\<lparr>Resolved = True\<rparr>]\<rparr>,
                   \<lparr>Commit = ''c2'', FileMatches = [], ContentMatches = [],
                    Matches = [\<lparr>Resolved = True\<rparr>, \<lparr>Resolved = False\<rparr>]\<rparr>].
         \<exists>m \<in> set (Matches r). Resolved m = False)"
  using C1_AllMatchesAreResolved
    [of "[\<lparr>Commit = ''c1'', FileMatches = [], ContentMatches = [],
           Matches = [\<lparr>Resolved = True\<rparr>]\<rparr>,
          \<lparr>Commit = ''c2'', FileMatches = [], ContentMatches = [],
           Matches = [\<lparr>Resolved = True\<rparr>, \<lparr>Resolved = False\<rparr>]\<rparr>]"]
  by simp

subsection \<open>The check-run handler\<close>

lemma verdicts_append [simp]: "verdicts (xs @ ys) = verdicts xs @ verdicts ys"
  by (simp add: verdicts_def)

lemma updates_head:
  "apiCalls h2 = [CreateCheckRunCall owner name opts r] \<Longrightarrow>
     updates h2 = [] \<and> listed h2 = [] \<and> scans h2 = []
     \<and> CreateCheckRunCall owner name opts r \<in> set h2"
proof -
  assume a: "apiCalls h2 = [CreateCheckRunCall owner name opts r]"
  have "updates (apiCalls h2) = []" "listed (apiCalls h2) = []" "scans (apiCalls h2) = []"
    by (simp_all add: a)
  moreover have "CreateCheckRunCall owner name opts r \<in> set (apiCalls h2)"
    by (simp add: a)
  then have "CreateCheckRunCall owner name opts r \<in> set h2"
    by (simp add: apiCalls_def)
  ultimately show ?thesis
    by (simp add: updates_apiCalls listed_apiCalls scans_apiCalls)
qed

text \<open>
  C5. When listing the commits of a pull request, fetching a commit or scanning fails,
  nothing has completed the check run before; all the handler does after the failed
  call, log lines apart, is one \<^verbatim>\<open>UpdateCheckRun\<close> (the call of \<^verbatim>\<open>handleFailure\<close>) with
  status completed, conclusion failure, the summary of the failure and no text: no
  further fetch or scan, no comment, and no scan result, partial or not, is reported.
\<close>

theorem C5_fetch_failure:
  assumes "HandleCheckSuite pkg handler p = pre @ e # post" and "fetchFailed e"
  shows "updates pre = []
         \<and> (\<exists>opts created s u.
               CreateCheckRunCall (Owner_Login (Repo p)) (Repo_Name (Repo p)) opts (Inr created)
                 \<in> set pre
               \<and> fetchFailureSummary s
               \<and> apiCalls post =
                   [UpdateCheckRunCall (Owner_Login (Repo p)) (Repo_Name (Repo p)) (ID created)
                      \<lparr>Status = checkRunStatusCompleted,
                        Conclusion = checkRunConclusionFailure,
                        Output = \<lparr>Title = ''Orca Checks'', Summary = s, Text = None\<rparr>\<rparr> u])"
proof -
  from assms(2) have "fetchFailed e \<or> foundMatches e" ..
  with assms(1) show ?thesis
  proof (cases rule: HandleCheckSuite_decisive)
    case (1 h2 created cl before pr rest)
    from decides_failed [OF 1(8) assms(2)] obtain s u where
      "fetchFailureSummary s"
      "apiCalls post =
         [UpdateCheckRunCall (Owner_Login (Repo p)) (Repo_Name (Repo p)) (ID created)
            \<lparr>Status = checkRunStatusCompleted, Conclusion = checkRunConclusionFailure,
              Output = \<lparr>Title = ''Orca Checks'', Summary = s, Text = None\<rparr>\<rparr> u]"
      by auto
    with updates_head [OF 1(2)] 1(1,7) show ?thesis by auto
  qed
qed

text \<open>
  C3. When a scan of the run answers a list of results with a match whose \<open>Resolved\<close> is
  false, the run completes the check run exactly once, with conclusion failure.
\<close>

theorem C3_unresolved_match:
  assumes "CheckFileContentFromQueriesCall q (rs, err) \<in> set (HandleCheckSuite pkg handler p)"
    and "r \<in> set rs" and "m \<in> set (Matches r)" and "\<not> Resolved m"
  shows "verdicts (HandleCheckSuite pkg handler p) =
           [(checkRunStatusCompleted, checkRunConclusionFailure)]"
proof -
  let ?e = "CheckFileContentFromQueriesCall q (rs, err)"
  from assms(1) obtain pre post where tr: "HandleCheckSuite pkg handler p = pre @ ?e # post"
    by (auto dest: split_list)
  have unres: "\<not> AllMatchesAreResolved rs"
    using assms(2-4) by (auto simp: AllMatchesAreResolved_iff)
  have dec: "fetchFailed ?e \<or> foundMatches ?e"
    using assms(2) by (cases err) auto
  from tr dec show ?thesis
  proof (cases rule: HandleCheckSuite_decisive)
    case (1 h2 created cl before pr rest)
    from decides_verdict [OF 1(8)] obtain con where
      v: "verdicts post = [(checkRunStatusCompleted, con)]"
      and f: "fetchFailed ?e \<longrightarrow> con = checkRunConclusionFailure"
      and u: "\<forall>q' rs'. ?e = CheckFileContentFromQueriesCall q' (rs', None)
                 \<and> \<not> AllMatchesAreResolved rs' \<longrightarrow> con = checkRunConclusionFailure"
      by blast
    have "con = checkRunConclusionFailure"
    proof (cases err)
      case None
      with u unres show ?thesis by blast
    next
      case (Some a)
      with f show ?thesis by simp
    qed
    moreover have "verdicts pre = []"
      using updates_head [OF 1(2)] 1(1,7) by (simp add: verdicts_def)
    moreover have "verdicts [?e] = []" by (simp add: verdicts_def)
    ultimately show ?thesis using tr v
      by (simp add: verdicts_def)
  qed
qed


lemma reminderBody_repo [simp]:
  "reminderBody (c\<lparr>CheckSuite_Repository := repo\<rparr>) = reminderBody c"
  by (simp add: reminderBody_def)

text \<open>
  C2, as amended. When a scan of the run answers, without error, a non-empty list of
  results all of whose matches are resolved, the check run has not been completed
  before; the handler then posts the reminder comment on the pull request whose commits
  it listed last and, right after, completes the check run: with conclusion success,
  the title and the text of \<^verbatim>\<open>BuildMessage\<close> when the comment was posted, and with
  conclusion failure and no text when posting the comment failed.
\<close>

theorem C2_resolved_matches:
  assumes "HandleCheckSuite pkg handler p =
             pre @ CheckFileContentFromQueriesCall q (rs, None) # post"
    and "rs \<noteq> []" and "AllMatchesAreResolved rs"
  shows "updates pre = [] \<and> listed pre \<noteq> []
         \<and> last (listed pre) \<in> Number ` set (PullRequests (CheckSuite p))
         \<and> (\<exists>opts created r u.
               CreateCheckRunCall (Owner_Login (Repo p)) (Repo_Name (Repo p)) opts (Inr created)
                 \<in> set pre
               \<and> apiCalls post =
                   [CreateCommentCall (Owner_Login (Repo p)) (Repo_Name (Repo p))
                      (last (listed pre)) \<lparr>Body = reminderBody created\<rparr> r,
                    UpdateCheckRunCall (Owner_Login (Repo p)) (Repo_Name (Repo p)) (ID created)
                      \<lparr>Status = checkRunStatusCompleted,
                        Conclusion = (if r = None then checkRunConclusionSuccess
                                      else checkRunConclusionFailure),
                        Output = \<lparr>Title = ''Orca Checks'',
                                  Summary = (if r = None
                                             then SummaryText (fst (BuildMessage pkg rs))
                                             else FailedToReply),
                                  Text = (if r = None then Some (snd (BuildMessage pkg rs))
                                          else None)\<rparr>\<rparr> u])"
proof -
  let ?e = "CheckFileContentFromQueriesCall q (rs, None)"
  have "fetchFailed ?e \<or> foundMatches ?e" using assms(2) by simp
  with assms(1) show ?thesis
  proof (cases rule: HandleCheckSuite_decisive)
    case (1 h2 created cl before pr rest)
    let ?c = "created\<lparr>CheckSuite_Repository := Repo p\<rparr>"
    from decides_found [OF 1(8)] have
      post: "post = actOnResults pkg handler p ?c pr rs (pre @ [?e])" by simp
    from apiCalls_actOnResults_resolved [OF assms(3), of pkg handler p ?c pr "pre @ [?e]"] post
    obtain r u where api: "apiCalls post =
       [CreateCommentCall (Owner_Login (Repo p)) (Repo_Name (Repo p)) (Number pr)
          \<lparr>Body = reminderBody created\<rparr> r,
        UpdateCheckRunCall (Owner_Login (Repo p)) (Repo_Name (Repo p)) (ID created)
          \<lparr>Status = checkRunStatusCompleted,
            Conclusion = (if r = None then checkRunConclusionSuccess
                          else checkRunConclusionFailure),
            Output = \<lparr>Title = ''Orca Checks'',
                      Summary = (if r = None then SummaryText (fst (BuildMessage pkg rs))
                                 else FailedToReply),
                      Text = (if r = None then Some (snd (BuildMessage pkg rs))
                              else None)\<rparr>\<rparr> u]"
      by auto
    have lp: "listed pre = map Number (before @ [pr])"
      using updates_head [OF 1(2)] 1(1,5) by simp
    then have "listed pre \<noteq> []" and l: "last (listed pre) = Number pr"
      by simp_all
    moreover have "Number pr \<in> Number ` set (PullRequests (CheckSuite p))"
      using 1(3) by simp
    moreover have "updates pre = []"
      using updates_head [OF 1(2)] 1(1,7) by simp
    moreover have "CreateCheckRunCall (Owner_Login (Repo p)) (Repo_Name (Repo p))
        \<lparr>Create_Name = ''Orca Checks'', Create_HeadSHA = HeadSHA (CheckSuite p),
          Create_Status = checkRunStatusInProgress\<rparr> (Inr created) \<in> set pre"
      using updates_head [OF 1(2)] 1(1) by simp
    ultimately show ?thesis using api by (simp only: l) blast
  qed
qed


lemma closes_updateCheckRun:
  assumes "updates mid = []" and "\<forall>x \<in> set tail. isLog x"
  shows "\<exists>pre uopts u logs.
           mid @ updateCheckRun handler c checkRunStatusCompleted con s t h @ tail =
             pre @ UpdateCheckRunCall (Owner_Login (CheckSuite_Repository c))
                     (Repo_Name (CheckSuite_Repository c)) (ID c) uopts u # logs
           \<and> updates pre = [] \<and> Status uopts = checkRunStatusCompleted
           \<and> (\<forall>x \<in> set logs. isLog x)
           \<and> (u \<noteq> None \<longrightarrow> Log LevelError ''Failed to update check run %d: %v'' \<in> set logs)"
proof -
  from updateCheckRun_shape [of handler c checkRunStatusCompleted con s t h]
  obtain u logs where
    "updateCheckRun handler c checkRunStatusCompleted con s t h =
       UpdateCheckRunCall (Owner_Login (CheckSuite_Repository c))
         (Repo_Name (CheckSuite_Repository c)) (ID c)
         \<lparr>Status = checkRunStatusCompleted, Conclusion = con,
           Output = \<lparr>Title = ''Orca Checks'', Summary = s, Text = t\<rparr>\<rparr> u # logs"
    "\<forall>x \<in> set logs. isLog x"
    "u \<noteq> None \<longrightarrow> Log LevelError ''Failed to update check run %d: %v'' \<in> set logs"
    by blast
  then have
    "mid @ updateCheckRun handler c checkRunStatusCompleted con s t h @ tail =
       mid @ UpdateCheckRunCall (Owner_Login (CheckSuite_Repository c))
         (Repo_Name (CheckSuite_Repository c)) (ID c)
         \<lparr>Status = checkRunStatusCompleted, Conclusion = con,
           Output = \<lparr>Title = ''Orca Checks'', Summary = s, Text = t\<rparr>\<rparr> u # (logs @ tail)"
    "Status \<lparr>Status = checkRunStatusCompleted, Conclusion = con,
           Output = \<lparr>Title = ''Orca Checks'', Summary = s, Text = t\<rparr>\<rparr> = checkRunStatusCompleted"
    "\<forall>x \<in> set (logs @ tail). isLog x"
    "u \<noteq> None \<longrightarrow> Log LevelError ''Failed to update check run %d: %v'' \<in> set (logs @ tail)"
    using assms(2) by auto
  with assms(1) show ?thesis by blast
qed

lemma actOnResults_shape:
  "\<exists>mid con s t H tail.
     actOnResults pkg handler p c pr rs h =
       mid @ updateCheckRun handler c checkRunStatusCompleted con s t H @ tail
     \<and> updates mid = [] \<and> (\<forall>x \<in> set tail. isLog x)"
proof (cases "AllMatchesAreResolved rs")
  case True
  let ?l = "Log LevelInfo
              ''Matches found but resolved in pull request #%d, passing check with reminder''"
  let ?r = "Issues_CreateComment (GitHubClient handler) (h @ [?l]) (Owner_Login (Repo p))
              (Repo_Name (Repo p)) (Number pr) \<lparr>Body = reminderBody c\<rparr>"
  let ?call = "CreateCommentCall (Owner_Login (Repo p)) (Repo_Name (Repo p)) (Number pr)
                 \<lparr>Body = reminderBody c\<rparr> ?r"
  show ?thesis
  proof (cases ?r)
    case None
    with True have "actOnResults pkg handler p c pr rs h =
        [?l, ?call] @ updateCheckRun handler c checkRunStatusCompleted checkRunConclusionSuccess
                        (SummaryText (fst (BuildMessage pkg rs)))
                        (Some (snd (BuildMessage pkg rs))) (h @ [?l, ?call])
          @ [Log LevelDebug
               (''Check run %d completed with conclusion '' @ [CHR 0x22] @ ''%s'' @ [CHR 0x22])]"
      by (simp add: actOnResults_def completeCheckRun_def Let_def)
    moreover have "updates [?l, ?call] = []" by simp
    ultimately show ?thesis by (metis isLog.simps(1) empty_iff empty_set set_ConsD)
  next
    case (Some e)
    with True have "actOnResults pkg handler p c pr rs h =
        [?l, ?call] @ updateCheckRun handler c checkRunStatusCompleted checkRunConclusionFailure
                        FailedToReply None (h @ [?l, ?call])
          @ [Log LevelError ''Check run %d failed: %v'']"
      by (simp add: actOnResults_def handleFailure_def Let_def)
    moreover have "updates [?l, ?call] = []" by simp
    ultimately show ?thesis by (metis isLog.simps(1) empty_iff empty_set set_ConsD)
  qed
next
  case False
  let ?l = "Log LevelDebug ''Potentially sensitive information detected, failing check''"
  from False have "actOnResults pkg handler p c pr rs h =
      [?l] @ updateCheckRun handler c checkRunStatusCompleted checkRunConclusionFailure
             (SummaryText (fst (BuildMessage pkg rs)))
             (Some (snd (BuildMessage pkg rs))) (h @ [?l])
        @ [Log LevelDebug
             (''Check run %d completed with conclusion '' @ [CHR 0x22] @ ''%s'' @ [CHR 0x22])]"
    by (simp add: actOnResults_def completeCheckRun_def Let_def)
  moreover have "updates [?l] = []" by simp
  ultimately show ?thesis by (metis isLog.simps(1) empty_iff empty_set set_ConsD)
qed

lemma decides_shape:
  assumes "decides pkg handler p c pr h e fin"
  shows "\<exists>mid con s t H tail.
     fin = mid @ updateCheckRun handler c checkRunStatusCompleted con s t H @ tail
     \<and> updates mid = [] \<and> (\<forall>x \<in> set tail. isLog x)"
  using assms
proof (cases rule: decides.cases)
  case (failed s err)
  then have "fin = [] @ updateCheckRun handler c checkRunStatusCompleted
                         checkRunConclusionFailure s None (h @ [e])
                     @ [Log LevelError ''Check run %d failed: %v'']"
    by (simp add: handleFailure_def)
  moreover have "updates [] = []" by simp
  ultimately show ?thesis by (metis isLog.simps(1) empty_iff empty_set set_ConsD)
next
  case (found rs q)
  then show ?thesis using actOnResults_shape by blast
qed


lemma not_create:
  "clean x \<or> isFetch x \<or> isClosing x \<Longrightarrow> x \<noteq> CreateCheckRunCall owner name opts r"
  by auto

lemma create_in_head:
  assumes "apiCalls h2 = [CreateCheckRunCall owner' name' opts' r']"
    and "CreateCheckRunCall owner name opts r \<in> set (h2 @ rest)"
    and "\<forall>x \<in> set rest. clean x \<or> isFetch x \<or> isClosing x"
  shows "owner = owner' \<and> name = name' \<and> opts = opts' \<and> r = r'"
proof -
  from assms(2,3) not_create have "CreateCheckRunCall owner name opts r \<in> set h2"
    by auto
  from in_apiCalls [OF this] assms(1) show ?thesis by simp
qed

lemma completeCheckRun_closing:
  "x \<in> set (completeCheckRun handler c con s t h) \<Longrightarrow> isClosing x"
  using in_apiCalls [of x "completeCheckRun handler c con s t h"]
        apiCalls_completeCheckRun [of handler c con s t h] isLog_isClosing
  by auto

lemma completes_onceI:
  assumes "tr = mid @ updateCheckRun handler (created\<lparr>CheckSuite_Repository := repo\<rparr>)
                      checkRunStatusCompleted con s t h @ tail"
    and "updates mid = []" and "\<forall>x \<in> set tail. isLog x"
  shows "\<exists>pre uopts u logs.
           tr = pre @ UpdateCheckRunCall (Owner_Login repo) (Repo_Name repo) (ID created)
                        uopts u # logs
           \<and> updates pre = [] \<and> Status uopts = checkRunStatusCompleted
           \<and> (\<forall>x \<in> set logs. isLog x)
           \<and> (u \<noteq> None \<longrightarrow> Log LevelError ''Failed to update check run %d: %v'' \<in> set logs)"
  using closes_updateCheckRun [OF assms(2,3), of handler
          "created\<lparr>CheckSuite_Repository := repo\<rparr>" con s t h] assms(1)
  by simp

text \<open>
  C6. When the check run has been created, it was created in progress, and the run
  consists of events without any \<^verbatim>\<open>UpdateCheckRun\<close>, then one \<^verbatim>\<open>UpdateCheckRun\<close> of the
  created check run with status completed, then log lines only: the check run is
  completed exactly once on every path, nothing re-opens it or retries the update, and
  a failed update is logged.
\<close>

theorem C6_completed_once:
  assumes "CreateCheckRunCall owner name opts (Inr created)
             \<in> set (HandleCheckSuite pkg handler p)"
  shows "Create_Status opts = checkRunStatusInProgress
         \<and> (\<exists>pre uopts u logs.
               HandleCheckSuite pkg handler p =
                 pre @ UpdateCheckRunCall owner name (ID created) uopts u # logs
               \<and> updates pre = [] \<and> Status uopts = checkRunStatusCompleted
               \<and> (\<forall>x \<in> set logs. isLog x)
               \<and> (u \<noteq> None \<longrightarrow>
                    Log LevelError ''Failed to update check run %d: %v'' \<in> set logs))"
proof (cases pkg handler p rule: HandleCheckSuite_cases)
  case (create_failed err)
  from in_apiCalls [OF assms] create_failed show ?thesis by simp
next
  case (skipped h2 created')
  let ?c = "created'\<lparr>CheckSuite_Repository := Repo p\<rparr>"
  let ?rest = "completeCheckRun handler ?c checkRunConclusionSkipped NoPullRequestsFound None h2
               @ [Log LevelInfo ''No pull request exists, skipping'']"
  have "\<forall>x \<in> set ?rest. clean x \<or> isFetch x \<or> isClosing x"
    using completeCheckRun_closing by auto
  from create_in_head [OF skipped(1) assms [unfolded skipped(3)] this]
  have id: "owner = Owner_Login (Repo p)" "name = Repo_Name (Repo p)"
    "Create_Status opts = checkRunStatusInProgress" "created = created'"
    by simp_all
  have eq: "HandleCheckSuite pkg handler p =
      h2 @ updateCheckRun handler ?c checkRunStatusCompleted checkRunConclusionSkipped
             NoPullRequestsFound None h2
         @ [Log LevelDebug
              (''Check run %d completed with conclusion '' @ [CHR 0x22] @ ''%s'' @ [CHR 0x22]),
            Log LevelInfo ''No pull request exists, skipping'']"
    using skipped(3) by (simp add: completeCheckRun_def)
  have upd: "updates h2 = []" using updates_head [OF skipped(1)] by simp
  have tl: "\<forall>x \<in> set [Log LevelDebug
              (''Check run %d completed with conclusion '' @ [CHR 0x22] @ ''%s'' @ [CHR 0x22]),
            Log LevelInfo ''No pull request exists, skipping'']. isLog x"
    by simp
  have "\<exists>pre uopts u logs.
           HandleCheckSuite pkg handler p =
             pre @ UpdateCheckRunCall (Owner_Login (Repo p)) (Repo_Name (Repo p)) (ID created')
                        uopts u # logs
           \<and> updates pre = [] \<and> Status uopts = checkRunStatusCompleted
           \<and> (\<forall>x \<in> set logs. isLog x)
           \<and> (u \<noteq> None \<longrightarrow> Log LevelError ''Failed to update check run %d: %v'' \<in> set logs)"
    by (rule completes_onceI [OF eq upd tl])
  with id show ?thesis by simp
next
  case (all_clear h2 created' cl)
  let ?c = "created'\<lparr>CheckSuite_Repository := Repo p\<rparr>"
  let ?rest = "cl @ completeCheckRun handler ?c checkRunConclusionSuccess NoIssuesDetected None
                      (h2 @ cl)"
  have "\<forall>x \<in> set ?rest. clean x \<or> isFetch x \<or> isClosing x"
    using completeCheckRun_closing all_clear(4) by auto
  from create_in_head [OF all_clear(1) assms [unfolded all_clear(3)] this]
  have id: "owner = Owner_Login (Repo p)" "name = Repo_Name (Repo p)"
    "Create_Status opts = checkRunStatusInProgress" "created = created'"
    by simp_all
  have eq: "HandleCheckSuite pkg handler p =
      (h2 @ cl) @ updateCheckRun handler ?c checkRunStatusCompleted checkRunConclusionSuccess
             NoIssuesDetected None (h2 @ cl)
         @ [Log LevelDebug
              (''Check run %d completed with conclusion '' @ [CHR 0x22] @ ''%s'' @ [CHR 0x22])]"
    using all_clear(3) by (simp add: completeCheckRun_def)
  have upd: "updates (h2 @ cl) = []"
    using updates_head [OF all_clear(1)] all_clear(7) by simp
  have tl: "\<forall>x \<in> set [Log LevelDebug
              (''Check run %d completed with conclusion '' @ [CHR 0x22] @ ''%s'' @ [CHR 0x22])].
              isLog x"
    by simp
  have "\<exists>pre uopts u logs.
           HandleCheckSuite pkg handler p =
             pre @ UpdateCheckRunCall (Owner_Login (Repo p)) (Repo_Name (Repo p)) (ID created')
                        uopts u # logs
           \<and> updates pre = [] \<and> Status uopts = checkRunStatusCompleted
           \<and> (\<forall>x \<in> set logs. isLog x)
           \<and> (u \<noteq> None \<longrightarrow> Log LevelError ''Failed to update check run %d: %v'' \<in> set logs)"
    by (rule completes_onceI [OF eq upd tl])
  with id show ?thesis by simp
next
  case (decided h2 created' cl e fin before pr rest)
  let ?c = "created'\<lparr>CheckSuite_Repository := Repo p\<rparr>"
  have dec: "fetchFailed e \<or> foundMatches e"
    using decides_decisive [OF decided(8)] .
  have "\<forall>x \<in> set (cl @ e # fin). clean x \<or> isFetch x \<or> isClosing x"
    using decided(4) decides_closing [OF decided(8)] isFetch_decisive [OF dec] by auto
  from create_in_head [OF decided(1) assms [unfolded decided(3)] this]
  have id: "owner = Owner_Login (Repo p)" "name = Repo_Name (Repo p)"
    "Create_Status opts = checkRunStatusInProgress" "created = created'"
    by simp_all
  from decides_shape [OF decided(8)] obtain mid con s t H tail where
    fin: "fin = mid @ updateCheckRun handler ?c checkRunStatusCompleted con s t H @ tail"
    and mid: "updates mid = []" and tail: "\<forall>x \<in> set tail. isLog x"
    by blast
  have eq: "HandleCheckSuite pkg handler p =
      (h2 @ cl @ e # mid) @ updateCheckRun handler ?c checkRunStatusCompleted con s t H @ tail"
    using decided(3) fin by simp
  have upd: "updates (h2 @ cl @ e # mid) = []"
    using updates_head [OF decided(1)] decided(7) mid decisive_props [OF dec] by simp
  note tl = tail
  have "\<exists>pre uopts u logs.
           HandleCheckSuite pkg handler p =
             pre @ UpdateCheckRunCall (Owner_Login (Repo p)) (Repo_Name (Repo p)) (ID created')
                        uopts u # logs
           \<and> updates pre = [] \<and> Status uopts = checkRunStatusCompleted
           \<and> (\<forall>x \<in> set logs. isLog x)
           \<and> (u \<noteq> None \<longrightarrow> Log LevelError ''Failed to update check run %d: %v'' \<in> set logs)"
    by (rule completes_onceI [OF eq upd tl])
  with id show ?thesis by simp
qed

lemma no_fetch_lists:
  "\<forall>x \<in> set tr. \<not> isFetch x \<Longrightarrow> listed tr = [] \<and> scans tr = []"
proof (induction tr)
  case Nil
  show ?case by simp
next
  case (Cons x tr)
  then have "\<not> isFetch x" by simp
  with Cons show ?case by (cases x) auto
qed

lemma clean_no_fetchFailed: "\<forall>x \<in> set cl. clean x \<Longrightarrow> \<forall>x \<in> set cl. \<not> fetchFailed x"
  using clean_not_decisive by blast

lemma updates_mem:
  "UpdateCheckRunCall owner name i uopts u \<in> set tr \<Longrightarrow> uopts \<in> set (updates tr)"
  by (induction tr rule: updates.induct) auto

text \<open>
  C4. For a check suite without pull requests the run lists no commits, fetches no
  commit and scans nothing; it writes no conclusion other than skipped (which is
  neither success nor failure); and its calls are the creation of the check run and,
  when that succeeded, one \<^verbatim>\<open>UpdateCheckRun\<close> with status completed and conclusion
  skipped.
\<close>

theorem C4_no_pull_requests:
  assumes "PullRequests (CheckSuite p) = []"
  shows "(\<forall>e \<in> set (HandleCheckSuite pkg handler p). \<not> isFetch e)
         \<and> set (verdicts (HandleCheckSuite pkg handler p))
             \<subseteq> {(checkRunStatusCompleted, checkRunConclusionSkipped)}
         \<and> checkRunConclusionSkipped \<noteq> checkRunConclusionSuccess
         \<and> checkRunConclusionSkipped \<noteq> checkRunConclusionFailure
         \<and> ((\<exists>opts err.
                apiCalls (HandleCheckSuite pkg handler p) =
                  [CreateCheckRunCall (Owner_Login (Repo p)) (Repo_Name (Repo p)) opts
                     (Inl err)])
             \<or> (\<exists>opts created u.
                  apiCalls (HandleCheckSuite pkg handler p) =
                    [CreateCheckRunCall (Owner_Login (Repo p)) (Repo_Name (Repo p)) opts
                       (Inr created),
                     UpdateCheckRunCall (Owner_Login (Repo p)) (Repo_Name (Repo p))
                       (ID created)
                       \<lparr>Status = checkRunStatusCompleted,
                         Conclusion = checkRunConclusionSkipped,
                         Output = \<lparr>Title = ''Orca Checks'',
                                   Summary = NoPullRequestsFound, Text = None\<rparr>\<rparr> u]))"
proof -
  let ?tr = "HandleCheckSuite pkg handler p"
  have api: "(\<exists>opts err. apiCalls ?tr =
                  [CreateCheckRunCall (Owner_Login (Repo p)) (Repo_Name (Repo p)) opts
                     (Inl err)])
             \<or> (\<exists>opts created u. apiCalls ?tr =
                    [CreateCheckRunCall (Owner_Login (Repo p)) (Repo_Name (Repo p)) opts
                       (Inr created),
                     UpdateCheckRunCall (Owner_Login (Repo p)) (Repo_Name (Repo p))
                       (ID created)
                       \<lparr>Status = checkRunStatusCompleted,
                         Conclusion = checkRunConclusionSkipped,
                         Output = \<lparr>Title = ''Orca Checks'',
                                   Summary = NoPullRequestsFound, Text = None\<rparr>\<rparr> u])"
  proof (cases pkg handler p rule: HandleCheckSuite_cases)
    case (create_failed err)
    then show ?thesis by blast
  next
    case (skipped h2 created)
    let ?c = "created\<lparr>CheckSuite_Repository := Repo p\<rparr>"
    from apiCalls_completeCheckRun [of handler ?c checkRunConclusionSkipped
           NoPullRequestsFound None h2]
    obtain u where "apiCalls (completeCheckRun handler ?c checkRunConclusionSkipped
           NoPullRequestsFound None h2) =
        [UpdateCheckRunCall (Owner_Login (Repo p)) (Repo_Name (Repo p)) (ID created)
           \<lparr>Status = checkRunStatusCompleted, Conclusion = checkRunConclusionSkipped,
             Output = \<lparr>Title = ''Orca Checks'', Summary = NoPullRequestsFound,
                       Text = None\<rparr>\<rparr> u]"
      by auto
    with skipped(1,3) have "apiCalls ?tr =
        [CreateCheckRunCall (Owner_Login (Repo p)) (Repo_Name (Repo p))
           \<lparr>Create_Name = ''Orca Checks'', Create_HeadSHA = HeadSHA (CheckSuite p),
             Create_Status = checkRunStatusInProgress\<rparr> (Inr created),
         UpdateCheckRunCall (Owner_Login (Repo p)) (Repo_Name (Repo p)) (ID created)
           \<lparr>Status = checkRunStatusCompleted, Conclusion = checkRunConclusionSkipped,
             Output = \<lparr>Title = ''Orca Checks'', Summary = NoPullRequestsFound,
                       Text = None\<rparr>\<rparr> u]"
      by simp
    then show ?thesis by blast
  next
    case (all_clear h2 created cl)
    with assms show ?thesis by simp
  next
    case (decided h2 created cl e fin before pr rest)
    with assms show ?thesis by simp
  qed
  have "\<forall>e \<in> set (apiCalls ?tr). \<not> isFetch e"
    using api by auto
  then have nofetch: "\<forall>e \<in> set ?tr. \<not> isFetch e"
    using in_apiCalls isLog_not_decisive by blast
  have "set (updates (apiCalls ?tr))
          \<subseteq> {\<lparr>Status = checkRunStatusCompleted, Conclusion = checkRunConclusionSkipped,
                Output = \<lparr>Title = ''Orca Checks'', Summary = NoPullRequestsFound,
                          Text = None\<rparr>\<rparr>}"
    using api by auto
  then have "set (verdicts ?tr) \<subseteq> {(checkRunStatusCompleted, checkRunConclusionSkipped)}"
    by (auto simp: verdicts_def updates_apiCalls)
  moreover have "checkRunConclusionSkipped \<noteq> checkRunConclusionSuccess"
    "checkRunConclusionSkipped \<noteq> checkRunConclusionFailure"
    by (simp_all add: checkRunConclusionSkipped_def checkRunConclusionSuccess_def
          checkRunConclusionFailure_def)
  ultimately show ?thesis using nofetch api by blast
qed


lemma decides_summaries:
  assumes "decides pkg handler p c pr h e fin"
  shows "\<forall>uopts \<in> set (updates fin). Summary (Output uopts) \<noteq> NoIssuesDetected"
proof -
  have "\<forall>uopts \<in> set (updates (apiCalls fin)). Summary (Output uopts) \<noteq> NoIssuesDetected"
    using assms
  proof (cases rule: decides.cases)
    case (failed s err)
    then show ?thesis
      using apiCalls_handleFailure [of handler c s err "h @ [e]"] by auto
  next
    case (found rs q)
    show ?thesis
    proof (cases "AllMatchesAreResolved rs")
      case True
      from apiCalls_actOnResults_resolved [OF True, of pkg handler p c pr "h @ [e]"] found
      show ?thesis by (auto split: if_splits)
    next
      case False
      from apiCalls_actOnResults_unresolved [OF False, of pkg handler p c pr "h @ [e]"] found
      show ?thesis by auto
    qed
  qed
  then show ?thesis by (simp add: updates_apiCalls)
qed

lemma updates_completeCheckRun:
  "updates (completeCheckRun handler c con s t h) =
     [\<lparr>Status = checkRunStatusCompleted, Conclusion = con,
       Output = \<lparr>Title = ''Orca Checks'', Summary = s, Text = t\<rparr>\<rparr>]"
proof -
  from apiCalls_completeCheckRun [of handler c con s t h]
  have "updates (apiCalls (completeCheckRun handler c con s t h)) =
     [\<lparr>Status = checkRunStatusCompleted, Conclusion = con,
       Output = \<lparr>Title = ''Orca Checks'', Summary = s, Text = t\<rparr>\<rparr>]"
    by auto
  then show ?thesis by (simp add: updates_apiCalls)
qed

lemma closing_lists:
  "\<forall>x \<in> set tr. isClosing x \<Longrightarrow>
     listed tr = [] \<and> scans tr = [] \<and> (\<forall>x \<in> set tr. \<not> fetchFailed x)"
  using no_fetch_lists [of tr] isClosing_props by blast

lemma head_lists:
  assumes "apiCalls h2 = [CreateCheckRunCall owner name opts r]"
  shows "\<forall>x \<in> set h2. \<not> fetchFailed x"
  using head_not_decisive [OF assms] isFetch_decisive by blast

text \<open>
  C10. The pull requests whose commits the run lists are a prefix of those of the
  payload, in its order. A scan that finds matches ends the scanning: before it each
  pull request listed earlier was scanned and came back empty, no fetch had failed and
  the check run had not been completed; after it nothing is listed, fetched or
  scanned, and the check run is completed once, with conclusion failure when the
  results of that scan have an unresolved match. The all-clear completion (summary
  \<open>NoIssuesDetected\<close>) has conclusion success and occurs only in a run of a non-empty
  suite that listed every pull request of the payload, got an empty result from each
  scan and met no failed fetch.
\<close>

theorem C10_payload_order:
  fixes pkg handler p
  defines "tr \<equiv> HandleCheckSuite pkg handler p"
    and "prs \<equiv> PullRequests (CheckSuite p)"
  shows "listed tr = map Number (take (length (listed tr)) prs)
    \<and> (\<forall>pre e post. tr = pre @ e # post \<and> foundMatches e \<longrightarrow>
          scans pre = replicate (length (scans pre)) ([], None)
          \<and> length (listed pre) = Suc (length (scans pre))
          \<and> (\<forall>x \<in> set pre. \<not> fetchFailed x)
          \<and> updates pre = []
          \<and> (\<forall>x \<in> set post. \<not> isFetch x)
          \<and> (\<exists>con. verdicts post = [(checkRunStatusCompleted, con)]
                \<and> (con = checkRunConclusionSuccess \<or> con = checkRunConclusionFailure)
                \<and> (\<forall>q rs. e = CheckFileContentFromQueriesCall q (rs, None)
                      \<and> \<not> AllMatchesAreResolved rs \<longrightarrow> con = checkRunConclusionFailure)))
    \<and> (\<forall>owner name i uopts u.
          UpdateCheckRunCall owner name i uopts u \<in> set tr
          \<and> Summary (Output uopts) = NoIssuesDetected \<longrightarrow>
            Conclusion uopts = checkRunConclusionSuccess \<and> prs \<noteq> []
            \<and> listed tr = map Number prs
            \<and> scans tr = replicate (length prs) ([], None)
            \<and> (\<forall>x \<in> set tr. \<not> fetchFailed x))"
proof (intro conjI allI impI)
  show "listed tr = map Number (take (length (listed tr)) prs)"
  proof (cases pkg handler p rule: HandleCheckSuite_cases)
    case (create_failed err)
    then have "listed (apiCalls tr) = []" by (simp add: tr_def)
    then show ?thesis by (simp add: listed_apiCalls)
  next
    case (skipped h2 created)
    have "listed (completeCheckRun handler (created\<lparr>CheckSuite_Repository := Repo p\<rparr>)
            checkRunConclusionSkipped NoPullRequestsFound None h2) = []"
      using closing_lists completeCheckRun_closing by blast
    with skipped updates_head [OF skipped(1)] show ?thesis
      by (simp add: tr_def prs_def)
  next
    case (all_clear h2 created cl)
    have "listed (completeCheckRun handler (created\<lparr>CheckSuite_Repository := Repo p\<rparr>)
            checkRunConclusionSuccess NoIssuesDetected None (h2 @ cl)) = []"
      using closing_lists completeCheckRun_closing by blast
    with all_clear updates_head [OF all_clear(1)] have "listed tr = map Number prs"
      by (simp add: tr_def prs_def)
    then show ?thesis by simp
  next
    case (decided h2 created cl e fin before pr rest)
    have "listed fin = []"
      using closing_lists decides_closing [OF decided(8)] by blast
    moreover have "listed (cl @ e # fin) = listed ((cl @ [e]) @ fin)" by simp
    then have "listed (cl @ e # fin) = listed (cl @ [e]) @ listed fin"
      by (simp only: listed_append)
    ultimately have "listed (cl @ e # fin) = map Number (before @ [pr])"
      using decided(5) by simp
    with decided(2,3) updates_head [OF decided(1)]
    have "listed tr = map Number (before @ [pr])" and "prs = before @ pr # rest"
      by (simp_all add: tr_def prs_def)
    then show ?thesis by simp
  qed
next
  fix pre e post
  assume "tr = pre @ e # post \<and> foundMatches e"
  then have tr: "HandleCheckSuite pkg handler p = pre @ e # post"
    and e: "fetchFailed e \<or> foundMatches e" and fm: "foundMatches e"
    by (simp_all add: tr_def)
  from tr e have
    "scans pre = replicate (length (scans pre)) ([], None)
     \<and> length (listed pre) = Suc (length (scans pre))
     \<and> (\<forall>x \<in> set pre. \<not> fetchFailed x)
     \<and> updates pre = []
     \<and> (\<forall>x \<in> set post. \<not> isFetch x)
     \<and> (\<exists>con. verdicts post = [(checkRunStatusCompleted, con)]
           \<and> (con = checkRunConclusionSuccess \<or> con = checkRunConclusionFailure)
           \<and> (\<forall>q rs. e = CheckFileContentFromQueriesCall q (rs, None)
                 \<and> \<not> AllMatchesAreResolved rs \<longrightarrow> con = checkRunConclusionFailure))"
  proof (cases rule: HandleCheckSuite_decisive)
    case (1 h2 created cl before pr rest)
    have le: "listed [e] = []" using fm by (cases e rule: foundMatches.cases) auto
    have "scans pre = replicate (length before) ([], None)"
      using 1(1,6) updates_head [OF 1(2)] by simp
    moreover have "listed pre = map Number (before @ [pr])"
      using 1(1,5) le updates_head [OF 1(2)] by simp
    moreover have "\<forall>x \<in> set pre. \<not> fetchFailed x"
      using 1(1,4) head_lists [OF 1(2)] clean_not_decisive by auto
    moreover have "updates pre = []"
      using 1(1,7) updates_head [OF 1(2)] by simp
    moreover note decides_no_fetch [OF 1(8)]
    moreover from decides_verdict [OF 1(8)] have
      "\<exists>con. verdicts post = [(checkRunStatusCompleted, con)]
           \<and> (con = checkRunConclusionSuccess \<or> con = checkRunConclusionFailure)
           \<and> (\<forall>q rs. e = CheckFileContentFromQueriesCall q (rs, None)
                 \<and> \<not> AllMatchesAreResolved rs \<longrightarrow> con = checkRunConclusionFailure)"
      by blast
    ultimately show ?thesis by simp
  qed
  then show "scans pre = replicate (length (scans pre)) ([], None)"
    "length (listed pre) = Suc (length (scans pre))"
    "updates pre = []"
    "\<exists>con. verdicts post = [(checkRunStatusCompleted, con)]
           \<and> (con = checkRunConclusionSuccess \<or> con = checkRunConclusionFailure)
           \<and> (\<forall>q rs. e = CheckFileContentFromQueriesCall q (rs, None)
                 \<and> \<not> AllMatchesAreResolved rs \<longrightarrow> con = checkRunConclusionFailure)"
    "\<forall>x \<in> set pre. \<not> fetchFailed x"
    "\<forall>x \<in> set post. \<not> isFetch x"
    by blast+
next
  fix owner name i uopts u
  assume "UpdateCheckRunCall owner name i uopts u \<in> set tr
          \<and> Summary (Output uopts) = NoIssuesDetected"
  then have mem: "uopts \<in> set (updates tr)" and su: "Summary (Output uopts) = NoIssuesDetected"
    using updates_mem by auto
  have "Conclusion uopts = checkRunConclusionSuccess \<and> prs \<noteq> []
            \<and> listed tr = map Number prs
            \<and> scans tr = replicate (length prs) ([], None)
            \<and> (\<forall>x \<in> set tr. \<not> fetchFailed x)"
  proof (cases pkg handler p rule: HandleCheckSuite_cases)
    case (create_failed err)
    then have "updates (apiCalls tr) = []" by (simp add: tr_def)
    with mem show ?thesis by (simp add: updates_apiCalls)
  next
    case (skipped h2 created)
    with mem su updates_head [OF skipped(1)] show ?thesis
      by (simp add: tr_def updates_completeCheckRun)
  next
    case (all_clear h2 created cl)
    let ?fin = "completeCheckRun handler (created\<lparr>CheckSuite_Repository := Repo p\<rparr>)
            checkRunConclusionSuccess NoIssuesDetected None (h2 @ cl)"
    have fin: "listed ?fin = [] \<and> scans ?fin = [] \<and> (\<forall>x \<in> set ?fin. \<not> fetchFailed x)"
      using closing_lists completeCheckRun_closing by blast
    have "Conclusion uopts = checkRunConclusionSuccess"
      using mem all_clear(3,7) updates_head [OF all_clear(1)]
      by (auto simp: tr_def updates_completeCheckRun)
    moreover have "prs \<noteq> []" using all_clear(2) by (simp add: prs_def)
    moreover have "listed tr = map Number prs" "scans tr = replicate (length prs) ([], None)"
      using all_clear(3,5,6) fin updates_head [OF all_clear(1)]
      by (simp_all add: tr_def prs_def)
    moreover have "\<forall>x \<in> set tr. \<not> fetchFailed x"
      using all_clear(3,4) fin head_lists [OF all_clear(1)] clean_not_decisive
      by (auto simp: tr_def)
    ultimately show ?thesis by simp
  next
    case (decided h2 created cl e fin before pr rest)
    have "updates (e # fin) = updates fin"
      using decisive_props [OF decides_decisive [OF decided(8)], of fin] by simp
    with mem decided(3,7) updates_head [OF decided(1)]
    have "uopts \<in> set (updates fin)" by (simp add: tr_def)
    with decides_summaries [OF decided(8)] su show ?thesis by blast
  qed
  then show "Conclusion uopts = checkRunConclusionSuccess" "prs \<noteq> []"
    "listed tr = map Number prs" "scans tr = replicate (length prs) ([], None)"
    "\<forall>x \<in> set tr. \<not> fetchFailed x"
    by blast+
qed

subsection \<open>The example runs, evaluated\<close>

lemmas example_defs =
  exampleHandler_def exampleClient_def exampleScanner_def examplePackage_def exampleSuite_def
  exampleRepo_def exampleListing_def exampleResult_def exampleCheckRun_def
  exampleOpening_def exampleFetches_def exampleScan_def exampleUpdate_def exampleCompleted_def
  checkRunStatusInProgress_def checkRunStatusCompleted_def checkRunConclusionSuccess_def
  checkRunConclusionSkipped_def checkRunConclusionFailure_def

lemmas handler_defs =
  HandleCheckSuite_def scanPullRequest_def actOnResults_def handleFailure_def
  completeCheckRun_def updateCheckRun_def fileStatusOf_def Let_def

lemma run_comment_fails:
  "HandleCheckSuite examplePackage
     (exampleHandler allResolved (Some (Error ''forbidden'')) None) (exampleSuite [1]) =
   (exampleOpening @ exampleFetches 1 ''c1'') @
   exampleScan ''c1'' ([exampleResult True], None) #
   [Log LevelInfo
      ''Matches found but resolved in pull request #%d, passing check with reminder'',
    CreateCommentCall ''octo'' ''orca'' 1 \<lparr>Body = reminderBody exampleCheckRun\<rparr>
      (Some (Error ''forbidden'')),
    exampleUpdate ''failure'' FailedToReply None None,
    Log LevelError ''Check run %d failed: %v'']"
  by (simp add: handler_defs example_defs allResolved_def reminderBody_def)

lemma run_comment_posted:
  "HandleCheckSuite examplePackage (exampleHandler allResolved None None) (exampleSuite [1]) =
   (exampleOpening @ exampleFetches 1 ''c1'') @
   exampleScan ''c1'' ([exampleResult True], None) #
   [Log LevelInfo
      ''Matches found but resolved in pull request #%d, passing check with reminder'',
    CreateCommentCall ''octo'' ''orca'' 1 \<lparr>Body = reminderBody exampleCheckRun\<rparr> None,
    exampleUpdate ''success'' (SummaryText ''title'') (Some ''text'') None,
    exampleCompleted]"
  by (simp add: handler_defs example_defs allResolved_def reminderBody_def)

lemma run_unresolved:
  "HandleCheckSuite examplePackage (exampleHandler allUnresolved None None) (exampleSuite [1]) =
   (exampleOpening @ exampleFetches 1 ''c1'') @
   exampleScan ''c1'' ([exampleResult False], None) #
   [Log LevelDebug ''Potentially sensitive information detected, failing check'',
    exampleUpdate ''failure'' (SummaryText ''title'') (Some ''text'') None,
    exampleCompleted]"
  by (simp add: handler_defs example_defs allUnresolved_def)

lemma run_no_pull_requests:
  "HandleCheckSuite examplePackage
     (exampleHandler noMatches None (Some (Error ''timeout''))) (exampleSuite []) =
   exampleOpening @
   [exampleUpdate ''skipped'' NoPullRequestsFound None (Some (Error ''timeout'')),
    Log LevelError ''Failed to update check run %d: %v'',
    exampleCompleted,
    Log LevelInfo ''No pull request exists, skipping'']"
  by (simp add: handler_defs example_defs)

lemma run_listing_fails:
  "HandleCheckSuite examplePackage (exampleHandler noMatches None None) (exampleSuite [3]) =
   exampleOpening @
   ListCommitsCall ''octo'' ''orca'' 3 (Inl (Error ''not found'')) #
   [exampleUpdate ''failure'' (FailedToGetCommits 3) None None,
    Log LevelError ''Check run %d failed: %v'']"
  by (simp add: handler_defs example_defs)

lemma run_second_found:
  "HandleCheckSuite examplePackage (exampleHandler onlySecond None None)
     (exampleSuite [1, 2, 3]) =
   (exampleOpening @ exampleFetches 1 ''c1'' @
    [exampleScan ''c1'' ([], None), Log LevelDebug ''No matches to address''] @
    exampleFetches 2 ''c2'') @
   exampleScan ''c2'' ([exampleResult False], None) #
   [Log LevelDebug ''Potentially sensitive information detected, failing check'',
    exampleUpdate ''failure'' (SummaryText ''title'') (Some ''text'') None,
    exampleCompleted]"
  by (simp add: handler_defs example_defs onlySecond_def)

lemma run_all_clear:
  "HandleCheckSuite examplePackage (exampleHandler noMatches None None)
     (exampleSuite [1, 2]) =
   exampleOpening @ exampleFetches 1 ''c1'' @
    [exampleScan ''c1'' ([], None), Log LevelDebug ''No matches to address''] @
    exampleFetches 2 ''c2'' @
    [exampleScan ''c2'' ([], None), Log LevelDebug ''No matches to address'',
     exampleUpdate ''success'' NoIssuesDetected None None,
     exampleCompleted]"
  by (simp add: handler_defs example_defs noMatches_def)


subsection \<open>The remediator and the push handler\<close>

lemma digitValue_digit: "d < 10 \<Longrightarrow> digitValue (digit d) = d"
  by (simp add: digitValue_def digit_def)

lemma decimalValue_snoc: "decimalValue (s @ [c]) = 10 * decimalValue s + digitValue c"
  by (simp add: decimalValue_def)

lemma decimalValue_decimal: "decimalValue (decimal n) = n"
proof (induction n rule: decimal.induct)
  case (1 n)
  show ?case
  proof (cases "n < 10")
    case True
    then show ?thesis
      by (subst decimal.simps) (simp add: decimalValue_def digitValue_digit)
  next
    case False
    then have "decimalValue (decimal n) =
        10 * decimalValue (decimal (n div 10)) + digitValue (digit (n mod 10))"
      by (subst decimal.simps) (simp add: decimalValue_snoc)
    with 1 False show ?thesis by (simp add: digitValue_digit)
  qed
qed

lemma fmt_d_nat: "fmt_d (int n) = decimal n"
  by (simp add: fmt_d_def)

text \<open>
  C7. Given two or more scan results, the title of the issue that \<^verbatim>\<open>RemediateFromPush\<close>
  requests is ``Potentially sensitive data found in N commits'', N the decimal numeral
  of the number of results (read back, the numeral is that number); given exactly one
  result, the title is ``Potentially sensitive data found in a commit''.
\<close>

theorem C7_title:
  "(2 \<le> length results \<longrightarrow>
      map Issue_Title (issues (snd (RemediateFromPush pushPayload results handlerContext h))) =
        [''Potentially sensitive data found in '' @ decimal (length results) @ '' commits'']
      \<and> decimalValue (decimal (length results)) = length results)
   \<and> (length results = 1 \<longrightarrow>
      map Issue_Title (issues (snd (RemediateFromPush pushPayload results handlerContext h))) =
        [''Potentially sensitive data found in a commit''])"
  by (simp add: RemediateFromPush_def Let_def fmt_d_nat decimalValue_decimal)

text \<open>
  C8. Whatever the scan results, and however many, \<^verbatim>\<open>RemediateFromPush\<close> makes exactly
  one call, an \<^verbatim>\<open>Issues.Create\<close> on the repository of the push; the assignee of the
  requested issue is the pusher; the function returns what that call answered.
\<close>

theorem C8_one_issue:
  "\<exists>req r.
     RemediateFromPush pushPayload results handlerContext h =
       (r, [CreateIssueCall (Owner_Login (Payload_Repository pushPayload))
              (Repo_Name (Payload_Repository pushPayload)) req r])
     \<and> Assignee req = Payload_Pusher_Name pushPayload
     \<and> issues (snd (RemediateFromPush pushPayload results handlerContext h)) = [req]"
  by (simp add: RemediateFromPush_def Let_def)

lemma HandlePush_listing:
  assumes "ListPullRequestsCall owner name opts a \<in> set (HandlePush pkg handler pushPayload)"
  shows "owner = Owner_Login (Push_Repo pushPayload)
         \<and> name = Repo_Name (Push_Repo pushPayload)
         \<and> opts = \<lparr>State = ''open'', Head = Pusher_Name pushPayload @ '':'' @ Ref pushPayload\<rparr>
         \<and> PullRequests_List (GitHubClient handler) [Log LevelInfo ''Handling push...'']
             owner name opts = a"
  using assms
  by (simp add: HandlePush_def Let_def split: option.splits if_splits)

text \<open>
  What \<^verbatim>\<open>HandlePush\<close> does after a listing that answered: when the listing of the open
  pull requests whose head is the pushed ref (asked for with state open and head
  \<open>pusher:ref\<close>) gives a non-empty list, that listing is the only call of the run: no
  commit is scanned, the match handler is not called, no issue is created.
\<close>

lemma HandlePush_listed_pull_request:
  assumes "ListPullRequestsCall owner name opts (prs, err)
             \<in> set (HandlePush pkg handler pushPayload)"
    and "prs \<noteq> []"
  shows "apiCalls (HandlePush pkg handler pushPayload) =
           [ListPullRequestsCall owner name opts (prs, err)]
         \<and> State opts = ''open''
         \<and> Head opts = Pusher_Name pushPayload @ '':'' @ Ref pushPayload"
proof -
  from HandlePush_listing [OF assms(1)] have
    id: "owner = Owner_Login (Push_Repo pushPayload)"
      "name = Repo_Name (Push_Repo pushPayload)"
      "opts = \<lparr>State = ''open'', Head = Pusher_Name pushPayload @ '':'' @ Ref pushPayload\<rparr>"
    and r: "PullRequests_List (GitHubClient handler) [Log LevelInfo ''Handling push...'']
             (Owner_Login (Push_Repo pushPayload)) (Repo_Name (Push_Repo pushPayload))
             \<lparr>State = ''open'', Head = Pusher_Name pushPayload @ '':'' @ Ref pushPayload\<rparr>
           = (prs, err)"
    by auto
  from r assms(2) have "HandlePush pkg handler pushPayload =
        [Log LevelInfo ''Handling push...'', ListPullRequestsCall owner name opts (prs, err),
         Log LevelInfo
           (''Pull Request already exists for %s, skipping check on push.'' @ [nl])]"
    unfolding id by (simp add: HandlePush_def Let_def)
  then show ?thesis using id(3) by simp
qed


subsection \<open>The claims on the example runs\<close>

lemma example_conclusions:
  "checkRunStatusCompleted = ''completed''" "checkRunConclusionSuccess = ''success''"
  "checkRunConclusionFailure = ''failure''" "checkRunConclusionSkipped = ''skipped''"
  by (simp_all add: checkRunStatusCompleted_def checkRunConclusionSuccess_def
        checkRunConclusionFailure_def checkRunConclusionSkipped_def)

lemma AllMatchesAreResolved_example:
  "AllMatchesAreResolved [exampleResult True]" "\<not> AllMatchesAreResolved [exampleResult False]"
  by (simp_all add: exampleResult_def)

text \<open>
  C2 as first stated does not hold: on pull request 1 the scan answers one result whose
  only match is resolved, the platform refuses the reminder comment, and the check run
  is completed with conclusion failure.
\<close>

theorem C2_counterexample:
  "HandleCheckSuite examplePackage
     (exampleHandler allResolved (Some (Error ''forbidden'')) None) (exampleSuite [1]) =
     (exampleOpening @ exampleFetches 1 ''c1'') @
     exampleScan ''c1'' ([exampleResult True], None) #
     [Log LevelInfo
        ''Matches found but resolved in pull request #%d, passing check with reminder'',
      CreateCommentCall ''octo'' ''orca'' 1 \<lparr>Body = reminderBody exampleCheckRun\<rparr>
        (Some (Error ''forbidden'')),
      exampleUpdate ''failure'' FailedToReply None None,
      Log LevelError ''Check run %d failed: %v'']
   \<and> [exampleResult True] \<noteq> []
   \<and> AllMatchesAreResolved [exampleResult True]
   \<and> verdicts (HandleCheckSuite examplePackage
        (exampleHandler allResolved (Some (Error ''forbidden'')) None) (exampleSuite [1])) =
       [(checkRunStatusCompleted, checkRunConclusionFailure)]
   \<and> checkRunConclusionFailure \<noteq> checkRunConclusionSuccess"
proof -
  have "verdicts (HandleCheckSuite examplePackage
        (exampleHandler allResolved (Some (Error ''forbidden'')) None) (exampleSuite [1])) =
       [(checkRunStatusCompleted, checkRunConclusionFailure)]"
    by (simp add: run_comment_fails verdicts_def exampleOpening_def exampleFetches_def
          exampleScan_def exampleUpdate_def example_conclusions)
  then show ?thesis
    using run_comment_fails AllMatchesAreResolved_example(1)
    by (simp add: example_conclusions)
qed

theorem C2_resolved_matches_witness:
  "HandleCheckSuite examplePackage (exampleHandler allResolved None None) (exampleSuite [1]) =
     (exampleOpening @ exampleFetches 1 ''c1'') @
     CheckFileContentFromQueriesCall
       [\<lparr>RepoOwner = ''octo'', RepoName = ''orca'', CommitSHA = ''c1'',
         FileName = ''id_rsa'', Query_Status = FileAdded\<rparr>] ([exampleResult True], None) #
     [Log LevelInfo
        ''Matches found but resolved in pull request #%d, passing check with reminder'',
      CreateCommentCall ''octo'' ''orca'' 1 \<lparr>Body = reminderBody exampleCheckRun\<rparr> None,
      exampleUpdate ''success'' (SummaryText ''title'') (Some ''text'') None,
      exampleCompleted]
   \<and> [exampleResult True] \<noteq> []
   \<and> AllMatchesAreResolved [exampleResult True]
   \<and> updates (exampleOpening @ exampleFetches 1 ''c1'') = []
   \<and> last (listed (exampleOpening @ exampleFetches 1 ''c1'')) = 1
   \<and> (\<exists>opts created r u.
         CreateCheckRunCall ''octo'' ''orca'' opts (Inr created)
           \<in> set (exampleOpening @ exampleFetches 1 ''c1'')
         \<and> apiCalls
             [Log LevelInfo
                ''Matches found but resolved in pull request #%d, passing check with reminder'',
              CreateCommentCall ''octo'' ''orca'' 1 \<lparr>Body = reminderBody exampleCheckRun\<rparr>
                None,
              exampleUpdate ''success'' (SummaryText ''title'') (Some ''text'') None,
              exampleCompleted] =
             [CreateCommentCall ''octo'' ''orca'' 1 \<lparr>Body = reminderBody created\<rparr> r,
              UpdateCheckRunCall ''octo'' ''orca'' (ID created)
                \<lparr>Status = checkRunStatusCompleted,
                  Conclusion = (if r = None then checkRunConclusionSuccess
                                else checkRunConclusionFailure),
                  Output = \<lparr>Title = ''Orca Checks'',
                            Summary = (if r = None then SummaryText ''title''
                                       else FailedToReply),
                            Text = (if r = None then Some ''text'' else None)\<rparr>\<rparr> u])"
proof -
  have run: "HandleCheckSuite examplePackage (exampleHandler allResolved None None)
               (exampleSuite [1]) =
     (exampleOpening @ exampleFetches 1 ''c1'') @
     CheckFileContentFromQueriesCall
       [\<lparr>RepoOwner = ''octo'', RepoName = ''orca'', CommitSHA = ''c1'',
         FileName = ''id_rsa'', Query_Status = FileAdded\<rparr>] ([exampleResult True], None) #
     [Log LevelInfo
        ''Matches found but resolved in pull request #%d, passing check with reminder'',
      CreateCommentCall ''octo'' ''orca'' 1 \<lparr>Body = reminderBody exampleCheckRun\<rparr> None,
      exampleUpdate ''success'' (SummaryText ''title'') (Some ''text'') None,
      exampleCompleted]"
    using run_comment_posted by (simp add: exampleScan_def)
  have ne: "[exampleResult True] \<noteq> []" by simp
  have l: "listed (exampleOpening @ exampleFetches 1 ''c1'') = [1]"
    by (simp add: exampleOpening_def exampleFetches_def)
  from C2_resolved_matches [OF run ne AllMatchesAreResolved_example(1)] run ne
    AllMatchesAreResolved_example(1) l
  show ?thesis
    by (simp add: exampleSuite_def exampleRepo_def examplePackage_def)
qed


theorem C3_unresolved_match_witness:
  "CheckFileContentFromQueriesCall
     [\<lparr>RepoOwner = ''octo'', RepoName = ''orca'', CommitSHA = ''c1'',
       FileName = ''id_rsa'', Query_Status = FileAdded\<rparr>] ([exampleResult False], None)
     \<in> set (HandleCheckSuite examplePackage (exampleHandler allUnresolved None None)
              (exampleSuite [1]))
   \<and> exampleResult False \<in> set [exampleResult False]
   \<and> \<lparr>Resolved = False\<rparr> \<in> set (Matches (exampleResult False))
   \<and> \<not> Resolved \<lparr>Resolved = False\<rparr>
   \<and> verdicts (HandleCheckSuite examplePackage (exampleHandler allUnresolved None None)
        (exampleSuite [1])) = [(checkRunStatusCompleted, checkRunConclusionFailure)]"
proof -
  have h1: "CheckFileContentFromQueriesCall
     [\<lparr>RepoOwner = ''octo'', RepoName = ''orca'', CommitSHA = ''c1'',
       FileName = ''id_rsa'', Query_Status = FileAdded\<rparr>] ([exampleResult False], None)
     \<in> set (HandleCheckSuite examplePackage (exampleHandler allUnresolved None None)
              (exampleSuite [1]))"
    by (simp add: run_unresolved exampleScan_def)
  have h2: "exampleResult False \<in> set [exampleResult False]" by simp
  have h3: "\<lparr>Resolved = False\<rparr> \<in> set (Matches (exampleResult False))"
    by (simp add: exampleResult_def)
  have h4: "\<not> Resolved \<lparr>Resolved = False\<rparr>" by simp
  from C3_unresolved_match [OF h1 h2 h3 h4] h1 h2 h3 h4 show ?thesis by simp
qed

theorem C4_no_pull_requests_witness:
  "PullRequests (CheckSuite (exampleSuite [])) = []
   \<and> set (verdicts (HandleCheckSuite examplePackage
             (exampleHandler noMatches None (Some (Error ''timeout''))) (exampleSuite [])))
       \<subseteq> {(checkRunStatusCompleted, checkRunConclusionSkipped)}
   \<and> checkRunConclusionSkipped \<noteq> checkRunConclusionSuccess
   \<and> checkRunConclusionSkipped \<noteq> checkRunConclusionFailure"
proof -
  have h: "PullRequests (CheckSuite (exampleSuite [])) = []"
    by (simp add: exampleSuite_def)
  from C4_no_pull_requests [OF h, of examplePackage
         "exampleHandler noMatches None (Some (Error ''timeout''))"] h
  show ?thesis by simp
qed

theorem C5_fetch_failure_witness:
  "HandleCheckSuite examplePackage (exampleHandler noMatches None None) (exampleSuite [3]) =
     exampleOpening @
     ListCommitsCall ''octo'' ''orca'' 3 (Inl (Error ''not found'')) #
     [exampleUpdate ''failure'' (FailedToGetCommits 3) None None,
      Log LevelError ''Check run %d failed: %v'']
   \<and> fetchFailed (ListCommitsCall ''octo'' ''orca'' 3 (Inl (Error ''not found'')))
   \<and> updates exampleOpening = []
   \<and> (\<exists>opts created s u.
         CreateCheckRunCall ''octo'' ''orca'' opts (Inr created) \<in> set exampleOpening
         \<and> fetchFailureSummary s
         \<and> apiCalls [exampleUpdate ''failure'' (FailedToGetCommits 3) None None,
                      Log LevelError ''Check run %d failed: %v''] =
             [UpdateCheckRunCall ''octo'' ''orca'' (ID created)
                \<lparr>Status = checkRunStatusCompleted, Conclusion = checkRunConclusionFailure,
                  Output = \<lparr>Title = ''Orca Checks'', Summary = s, Text = None\<rparr>\<rparr> u])"
proof -
  have h1: "HandleCheckSuite examplePackage (exampleHandler noMatches None None)
              (exampleSuite [3]) =
     exampleOpening @
     ListCommitsCall ''octo'' ''orca'' 3 (Inl (Error ''not found'')) #
     [exampleUpdate ''failure'' (FailedToGetCommits 3) None None,
      Log LevelError ''Check run %d failed: %v'']"
    by (rule run_listing_fails)
  have h2: "fetchFailed (ListCommitsCall ''octo'' ''orca'' 3 (Inl (Error ''not found'')))"
    by simp
  from C5_fetch_failure [OF h1 h2] h1 h2 show ?thesis
    by (simp add: exampleSuite_def exampleRepo_def)
qed

theorem C6_completed_once_witness:
  "CreateCheckRunCall ''octo'' ''orca''
     \<lparr>Create_Name = ''Orca Checks'', Create_HeadSHA = ''c2'', Create_Status = ''in_progress''\<rparr>
     (Inr exampleCheckRun)
     \<in> set (HandleCheckSuite examplePackage
              (exampleHandler noMatches None (Some (Error ''timeout''))) (exampleSuite []))
   \<and> (\<exists>pre uopts u logs.
         HandleCheckSuite examplePackage
           (exampleHandler noMatches None (Some (Error ''timeout''))) (exampleSuite []) =
           pre @ UpdateCheckRunCall ''octo'' ''orca'' (ID exampleCheckRun) uopts u # logs
         \<and> updates pre = [] \<and> Status uopts = checkRunStatusCompleted
         \<and> (\<forall>x \<in> set logs. isLog x)
         \<and> (u \<noteq> None \<longrightarrow>
              Log LevelError ''Failed to update check run %d: %v'' \<in> set logs))"
proof -
  have h: "CreateCheckRunCall ''octo'' ''orca''
     \<lparr>Create_Name = ''Orca Checks'', Create_HeadSHA = ''c2'', Create_Status = ''in_progress''\<rparr>
     (Inr exampleCheckRun)
     \<in> set (HandleCheckSuite examplePackage
              (exampleHandler noMatches None (Some (Error ''timeout''))) (exampleSuite []))"
    by (simp add: run_no_pull_requests exampleOpening_def)
  from C6_completed_once [OF h] h show ?thesis by blast
qed

theorem C7_title_witness:
  "2 \<le> length [exampleResult False, exampleResult True]
   \<and> map Issue_Title (issues (snd (RemediateFromPush examplePayload
        [exampleResult False, exampleResult True] exampleContext []))) =
       [''Potentially sensitive data found in 2 commits'']
   \<and> length [exampleResult False] = 1
   \<and> map Issue_Title (issues (snd (RemediateFromPush examplePayload
        [exampleResult False] exampleContext []))) =
       [''Potentially sensitive data found in a commit'']"
proof -
  have d: "decimal (Suc (Suc 0)) = ''2''"
    by code_simp
  from C7_title [of "[exampleResult False, exampleResult True]" examplePayload exampleContext "[]"]
       C7_title [of "[exampleResult False]" examplePayload exampleContext "[]"] d
  show ?thesis by simp
qed

theorem C8_one_issue_witness:
  "map Assignee (issues (snd (RemediateFromPush examplePayload
     [exampleResult False, exampleResult True] exampleContext []))) = [''alice'']
   \<and> length [exampleResult False, exampleResult True] = 2"
proof -
  from C8_one_issue [of examplePayload "[exampleResult False, exampleResult True]"
         exampleContext "[]"]
  obtain req r where
    "Assignee req = Payload_Pusher_Name examplePayload"
    "issues (snd (RemediateFromPush examplePayload
       [exampleResult False, exampleResult True] exampleContext [])) = [req]"
    by blast
  then show ?thesis
    by (simp add: examplePayload_def)
qed

text \<open>
  C9 does not hold of \<^verbatim>\<open>HandlePush\<close> when the listing itself fails. The platform has an
  open pull request whose head is the pushed ref. While it answers, the listing is the
  only call of the run. When it does not answer, the listing returns an error and no
  list; the handler never reads that error, finds the list empty, scans the push and
  calls the match handler.
\<close>

theorem C9_failed_listing_scans:
  "(Pusher_Name examplePush @ '':'' @ Ref examplePush, \<lparr>Number = 5\<rparr>)
     \<in> set (Platform_open (examplePlatform True))
   \<and> Platform_open (examplePlatform False) = Platform_open (examplePlatform True)
   \<and> apiCalls (HandlePush examplePackage (pushHandler (examplePlatform True)) examplePush) =
       [ListPullRequestsCall ''octo'' ''orca''
          \<lparr>State = ''open'', Head = ''alice:refs/heads/fix''\<rparr> ([\<lparr>Number = 5\<rparr>], None)]
   \<and> apiCalls (HandlePush examplePackage (pushHandler (examplePlatform False)) examplePush) =
       [ListPullRequestsCall ''octo'' ''orca''
          \<lparr>State = ''open'', Head = ''alice:refs/heads/fix''\<rparr>
          ([], Some (Error ''connection refused'')),
        CheckPushCall examplePush ([exampleResult False], None),
        HandleMatchesFromPushCall examplePush [exampleResult False] None]"
proof -
  have up: "ListPullRequestsCall ''octo'' ''orca''
     \<lparr>State = ''open'', Head = ''alice:refs/heads/fix''\<rparr> ([\<lparr>Number = 5\<rparr>], None)
     \<in> set (HandlePush examplePackage (pushHandler (examplePlatform True)) examplePush)"
    by (simp add: HandlePush_def Let_def pushHandler_def exampleClient_def listOpen_def
          examplePlatform_def examplePush_def exampleRepo_def)
  have ne: "[\<lparr>Number = 5\<rparr>] \<noteq> []" by simp
  have down: "HandlePush examplePackage (pushHandler (examplePlatform False)) examplePush =
      [Log LevelInfo ''Handling push...'',
       ListPullRequestsCall ''octo'' ''orca''
         \<lparr>State = ''open'', Head = ''alice:refs/heads/fix''\<rparr>
         ([], Some (Error ''connection refused'')),
       CheckPushCall examplePush ([exampleResult False], None),
       Log LevelInfo ''Potentially sensitive information detected. Rectifying...'',
       HandleMatchesFromPushCall examplePush [exampleResult False] None,
       Log LevelInfo ''Push has been addressed'']"
    by (simp add: HandlePush_def Let_def pushHandler_def exampleClient_def listOpen_def
          examplePlatform_def exampleScanner_def allUnresolved_def examplePackage_def
          examplePush_def exampleRepo_def)
  from HandlePush_listed_pull_request [OF up ne] down show ?thesis
    by (simp add: examplePlatform_def examplePush_def)
qed


theorem C10_payload_order_witness:
  "HandleCheckSuite examplePackage (exampleHandler onlySecond None None)
     (exampleSuite [1, 2, 3]) =
     (exampleOpening @ exampleFetches 1 ''c1'' @
      [exampleScan ''c1'' ([], None), Log LevelDebug ''No matches to address''] @
      exampleFetches 2 ''c2'') @
     exampleScan ''c2'' ([exampleResult False], None) #
     [Log LevelDebug ''Potentially sensitive information detected, failing check'',
      exampleUpdate ''failure'' (SummaryText ''title'') (Some ''text'') None,
      exampleCompleted]
   \<and> foundMatches (exampleScan ''c2'' ([exampleResult False], None))
   \<and> listed (HandleCheckSuite examplePackage (exampleHandler onlySecond None None)
        (exampleSuite [1, 2, 3])) = [1, 2]
   \<and> scans (exampleOpening @ exampleFetches 1 ''c1'' @
        [exampleScan ''c1'' ([], None), Log LevelDebug ''No matches to address''] @
        exampleFetches 2 ''c2'') = [([], None)]
   \<and> updates (exampleOpening @ exampleFetches 1 ''c1'' @
        [exampleScan ''c1'' ([], None), Log LevelDebug ''No matches to address''] @
        exampleFetches 2 ''c2'') = []
   \<and> verdicts
        [Log LevelDebug ''Potentially sensitive information detected, failing check'',
         exampleUpdate ''failure'' (SummaryText ''title'') (Some ''text'') None,
         exampleCompleted] = [(checkRunStatusCompleted, checkRunConclusionFailure)]
   \<and> exampleUpdate ''success'' NoIssuesDetected None None
        \<in> set (HandleCheckSuite examplePackage (exampleHandler noMatches None None)
                 (exampleSuite [1, 2]))
   \<and> listed (HandleCheckSuite examplePackage (exampleHandler noMatches None None)
        (exampleSuite [1, 2])) = [1, 2]
   \<and> scans (HandleCheckSuite examplePackage (exampleHandler noMatches None None)
        (exampleSuite [1, 2])) = [([], None), ([], None)]"
proof -
  let ?pre = "exampleOpening @ exampleFetches 1 ''c1'' @
      [exampleScan ''c1'' ([], None), Log LevelDebug ''No matches to address''] @
      exampleFetches 2 ''c2''"
  let ?e = "exampleScan ''c2'' ([exampleResult False], None)"
  let ?post = "[Log LevelDebug ''Potentially sensitive information detected, failing check'',
      exampleUpdate ''failure'' (SummaryText ''title'') (Some ''text'') None,
      exampleCompleted]"
  let ?tr = "HandleCheckSuite examplePackage (exampleHandler onlySecond None None)
     (exampleSuite [1, 2, 3])"
  let ?tr' = "HandleCheckSuite examplePackage (exampleHandler noMatches None None)
     (exampleSuite [1, 2])"
  note found = C10_payload_order [of examplePackage "exampleHandler onlySecond None None"
      "exampleSuite [1, 2, 3]"]
  note clear = C10_payload_order [of examplePackage "exampleHandler noMatches None None"
      "exampleSuite [1, 2]"]
  have run: "?tr = ?pre @ ?e # ?post" by (rule run_second_found)
  have fm: "foundMatches ?e" by (simp add: exampleScan_def)
  have l: "listed ?tr = [1, 2]"
    by (simp add: run exampleOpening_def exampleFetches_def exampleScan_def exampleUpdate_def
          exampleCompleted_def)
  have sc: "scans ?pre = [([], None)]"
    by (simp add: exampleOpening_def exampleFetches_def exampleScan_def)
  from found [THEN conjunct2, THEN conjunct1, rule_format, of ?pre ?e ?post] run fm
  have up: "updates ?pre = []"
    and "\<exists>con. verdicts ?post = [(checkRunStatusCompleted, con)]
           \<and> (con = checkRunConclusionSuccess \<or> con = checkRunConclusionFailure)
           \<and> (\<forall>q rs. ?e = CheckFileContentFromQueriesCall q (rs, None)
                 \<and> \<not> AllMatchesAreResolved rs \<longrightarrow> con = checkRunConclusionFailure)"
    by blast+
  then have v: "verdicts ?post = [(checkRunStatusCompleted, checkRunConclusionFailure)]"
    using AllMatchesAreResolved_example(2) by (auto simp: exampleScan_def)
  have mem: "UpdateCheckRunCall ''octo'' ''orca'' 7
       \<lparr>Status = ''completed'', Conclusion = ''success'',
         Output = \<lparr>Title = ''Orca Checks'', Summary = NoIssuesDetected, Text = None\<rparr>\<rparr> None
       \<in> set ?tr'"
    by (simp add: run_all_clear exampleUpdate_def)
  from clear [THEN conjunct2, THEN conjunct2, rule_format, of "''octo''" "''orca''" 7
      "\<lparr>Status = ''completed'', Conclusion = ''success'',
         Output = \<lparr>Title = ''Orca Checks'', Summary = NoIssuesDetected, Text = None\<rparr>\<rparr>" None]
    mem
  have "listed ?tr' = map Number (PullRequests (CheckSuite (exampleSuite [1, 2])))"
    and "scans ?tr' =
           replicate (length (PullRequests (CheckSuite (exampleSuite [1, 2])))) ([], None)"
    by simp_all
  then have "listed ?tr' = [1, 2]" "scans ?tr' = [([], None), ([], None)]"
    by (simp_all add: exampleSuite_def)
  with run fm l sc up v mem show ?thesis
    by (simp add: exampleUpdate_def)
qed

end
